theory Spec2Isabelle
  imports Complex_Main "HOL-Library.Sublist" "HOL-Library.Code_Target_Nat"
begin

section \<open>JavaScript strings\<close>

text \<open>
  A JavaScript string is a sequence of UTF-16 code units; \<open>length\<close> counts code units, as
  \<^verbatim>\<open>String.prototype.length\<close> does.  ASCII text is written \<open>js ''...''\<close>.
\<close>

type_synonym jsstring = "nat list"

definition js :: "string \<Rightarrow> jsstring" where
  "js s = map of_char s"

definition isDigit :: "nat \<Rightarrow> bool" where
  "isDigit c = (48 \<le> c \<and> c \<le> 57)"

definition isWordChar :: "nat \<Rightarrow> bool" where
  "isWordChar c = ((97 \<le> c \<and> c \<le> 122) \<or> (65 \<le> c \<and> c \<le> 90) \<or> isDigit c \<or> c = 95)"

definition isLineTerminator :: "nat \<Rightarrow> bool" where
  "isLineTerminator c = (c = 10 \<or> c = 13 \<or> c = 8232 \<or> c = 8233)"

text \<open>
  The set that \<^verbatim>\<open>\s\<close> and \<^verbatim>\<open>trim\<close> share: WhiteSpace (TAB, VT, FF, SP, NBSP, ZWNBSP and
  the Unicode space separators) together with the line terminators.
\<close>

definition isWhiteSpace :: "nat \<Rightarrow> bool" where
  "isWhiteSpace c = ((9 \<le> c \<and> c \<le> 13) \<or> c = 32 \<or> c = 160 \<or> c = 5760 \<or>
     (8192 \<le> c \<and> c \<le> 8202) \<or> c = 8232 \<or> c = 8233 \<or> c = 8239 \<or> c = 8287 \<or>
     c = 12288 \<or> c = 65279)"

definition trim :: "jsstring \<Rightarrow> jsstring" where
  "trim s = rev (dropWhile isWhiteSpace (rev (dropWhile isWhiteSpace s)))"

text \<open>
  \<^verbatim>\<open>toLowerCase\<close> on the code units whose lower-case form contains an ASCII letter: the
  letters A to Z, U+0130 (to \<^verbatim>\<open>i\<close> and U+0307) and the Kelvin sign U+212A (to \<^verbatim>\<open>k\<close>).
  Every other code unit outside ASCII lower-cases to code units outside ASCII; they are left
  as they are, which no use of the result in this program can tell apart: the tokenizer
  below reads them as separators either way, and the generic pattern lower-cases ASCII
  words only.
\<close>

definition lower_unit :: "nat \<Rightarrow> jsstring" where
  "lower_unit c =
     (if 65 \<le> c \<and> c \<le> 90 then [c + 32]
      else if c = 304 then [105, 775]
      else if c = 8490 then [107]
      else [c])"

definition toLowerCase :: "jsstring \<Rightarrow> jsstring" where
  "toLowerCase s = concat (map lower_unit s)"

section \<open>Regular expressions\<close>

text \<open>
  The regular expressions of the program are kept as syntax trees and run by one
  backtracking matcher that follows the ECMAScript pattern semantics: alternatives are
  tried left to right, a greedy quantifier tries one more iteration before stopping and a
  lazy one stops first, and the first complete match in that order is the result.
\<close>

datatype citem = Ch nat | Rng nat nat | Esc_d | Esc_w | Esc_s | Esc_S | Esc_W

datatype regex =
    Eps
  | Sym bool "citem list"
  | Seq regex regex
  | Alt regex regex
  | Rep bool nat "nat option" regex
  | Grp nat regex
  | Bol
  | Eol
  | WordB

record flags =
  ignoreCase :: bool
  multiline :: bool

datatype mstate = MState (pos: nat) (prev: "nat option") (rest: jsstring) (caps: "(nat \<times> jsstring) list")

text \<open>
  Case-insensitive matching without the \<^verbatim>\<open>u\<close> flag compares canonical forms.  Every pattern
  character of this program is ASCII, and Canonicalize never maps a non-ASCII code unit to
  an ASCII one, so the code units with the canonical form of \<open>c\<close> that a pattern of this
  program can name are \<open>c\<close> itself and, for an ASCII letter, its other case.
\<close>

definition variants :: "flags \<Rightarrow> nat \<Rightarrow> nat list" where
  "variants f c =
     (if ignoreCase f \<and> 97 \<le> c \<and> c \<le> 122 then [c, c - 32]
      else if ignoreCase f \<and> 65 \<le> c \<and> c \<le> 90 then [c, c + 32]
      else [c])"

fun in_item :: "nat \<Rightarrow> citem \<Rightarrow> bool" where
  "in_item c (Ch a) = (c = a)"
| "in_item c (Rng lo hi) = (lo \<le> c \<and> c \<le> hi)"
| "in_item c Esc_d = isDigit c"
| "in_item c Esc_w = isWordChar c"
| "in_item c Esc_s = isWhiteSpace c"
| "in_item c Esc_S = (\<not> isWhiteSpace c)"
| "in_item c Esc_W = (\<not> isWordChar c)"

definition in_class :: "flags \<Rightarrow> citem list \<Rightarrow> nat \<Rightarrow> bool" where
  "in_class f items c = list_ex (\<lambda>v. list_ex (in_item v) items) (variants f c)"

fun group_numbers :: "regex \<Rightarrow> nat list" where
  "group_numbers (Seq r s) = group_numbers r @ group_numbers s"
| "group_numbers (Alt r s) = group_numbers r @ group_numbers s"
| "group_numbers (Rep g mn mx r) = group_numbers r"
| "group_numbers (Grp n r) = n # group_numbers r"
| "group_numbers r = []"

fun rsize :: "regex \<Rightarrow> nat" where
  "rsize (Seq r s) = Suc (rsize r + rsize s)"
| "rsize (Alt r s) = Suc (rsize r + rsize s)"
| "rsize (Rep g mn mx r) = Suc (rsize r)"
| "rsize (Grp n r) = Suc (rsize r)"
| "rsize r = 0"

fun rmin :: "regex \<Rightarrow> nat" where
  "rmin (Rep g mn mx r) = mn"
| "rmin r = 0"

definition isWordAt :: "nat option \<Rightarrow> bool" where
  "isWordAt c = (case c of None \<Rightarrow> False | Some a \<Rightarrow> isWordChar a)"

definition next_char :: "mstate \<Rightarrow> nat option" where
  "next_char st = (case rest st of [] \<Rightarrow> None | c # cs \<Rightarrow> Some c)"

text \<open>
  \<open>run f r st\<close> lists the states in which \<open>r\<close> can end when started in \<open>st\<close>, in the order
  the backtracking matcher would reach them.  In a repetition the captures of the body are
  reset before each iteration, and once the minimum is met an iteration that consumes
  nothing is rejected (RepeatMatcher).  The test that the remaining input has not grown is
  always true; it is what the termination proof reads.
\<close>

function run :: "flags \<Rightarrow> regex \<Rightarrow> mstate \<Rightarrow> mstate list" where
  "run f Eps st = [st]"
| "run f (Sym neg items) st =
     (case rest st of
        [] \<Rightarrow> []
      | c # cs \<Rightarrow>
          if in_class f items c \<noteq> neg then [MState (Suc (pos st)) (Some c) cs (caps st)]
          else [])"
| "run f (Seq r s) st = concat (map (run f s) (run f r st))"
| "run f (Alt r s) st = run f r st @ run f s st"
| "run f (Grp n r) st =
     map (\<lambda>st'. MState (pos st') (prev st') (rest st')
                  ((n, take (pos st' - pos st) (rest st)) # caps st'))
         (run f r st)"
| "run f Bol st =
     (case prev st of
        None \<Rightarrow> [st]
      | Some c \<Rightarrow> if multiline f \<and> isLineTerminator c then [st] else [])"
| "run f Eol st =
     (case rest st of
        [] \<Rightarrow> [st]
      | c # cs \<Rightarrow> if multiline f \<and> isLineTerminator c then [st] else [])"
| "run f WordB st = (if isWordAt (prev st) \<noteq> isWordAt (next_char st) then [st] else [])"
| "run f (Rep g mn mx r) st =
     (let again =
            (if mx = Some 0 then []
             else concat (map
               (\<lambda>st'. if length (rest st') < length (rest st) \<or>
                          (0 < mn \<and> length (rest st') = length (rest st))
                       then run f (Rep g (mn - 1) (map_option (\<lambda>m. m - 1) mx) r) st'
                       else [])
               (run f r (MState (pos st) (prev st) (rest st)
                          (filter (\<lambda>(n, v). n \<notin> set (group_numbers r)) (caps st))))));
          stop = (if mn = 0 then [st] else [])
      in if g then again @ stop else stop @ again)"
  by pat_completeness auto
termination
  by (relation "measures [\<lambda>(f, r, st). rsize r, \<lambda>(f, r, st). length (rest st), \<lambda>(f, r, st). rmin r]")
     auto

declare run.simps(9) [simp del]

subsection \<open>Pattern syntax\<close>

definition chr :: "nat \<Rightarrow> regex" where
  "chr c = Sym False [Ch c]"

definition cat :: "regex list \<Rightarrow> regex" where
  "cat rs = foldr Seq rs Eps"

definition lit :: "string \<Rightarrow> regex" where
  "lit s = cat (map chr (js s))"

fun alts :: "regex list \<Rightarrow> regex" where
  "alts [] = Sym False []"
| "alts [r] = r"
| "alts (r # rs) = Alt r (alts rs)"

text \<open>\<^verbatim>\<open>.\<close> is every code unit but the line terminators.\<close>

definition Dot :: regex where
  "Dot = Sym True [Ch 10, Ch 13, Ch 8232, Ch 8233]"

definition Star :: "regex \<Rightarrow> regex" where
  "Star r = Rep True 0 None r"

definition Plus :: "regex \<Rightarrow> regex" where
  "Plus r = Rep True 1 None r"

definition Opt :: "regex \<Rightarrow> regex" where
  "Opt r = Rep True 0 (Some 1) r"

definition LazyStar :: "regex \<Rightarrow> regex" where
  "LazyStar r = Rep False 0 None r"

definition LazyPlus :: "regex \<Rightarrow> regex" where
  "LazyPlus r = Rep False 1 None r"

definition no_flags :: flags where
  "no_flags = \<lparr>ignoreCase = False, multiline = False\<rparr>"

definition flag_i :: flags where
  "flag_i = \<lparr>ignoreCase = True, multiline = False\<rparr>"

definition flag_m :: flags where
  "flag_m = \<lparr>ignoreCase = False, multiline = True\<rparr>"

subsection \<open>Searching, replacing and splitting\<close>

text \<open>
  \<open>search f r p pv s\<close> is one call of \<^verbatim>\<open>exec\<close> with \<^verbatim>\<open>lastIndex = p\<close>: \<open>s\<close> is the input
  from index \<open>p\<close> on and \<open>pv\<close> the code unit before it.  The result is the index where the
  first match starts and the state where it ends.
\<close>

fun search :: "flags \<Rightarrow> regex \<Rightarrow> nat \<Rightarrow> nat option \<Rightarrow> jsstring \<Rightarrow> (nat \<times> mstate) option" where
  "search f r p pv [] =
     (case run f r (MState p pv [] []) of m # ms \<Rightarrow> Some (p, m) | [] \<Rightarrow> None)"
| "search f r p pv (c # cs) =
     (case run f r (MState p pv (c # cs) []) of
        m # ms \<Rightarrow> Some (p, m)
      | [] \<Rightarrow> search f r (Suc p) (Some c) cs)"

definition test :: "flags \<Rightarrow> regex \<Rightarrow> jsstring \<Rightarrow> bool" where
  "test f r s = (search f r 0 None s \<noteq> None)"

text \<open>
  \<^verbatim>\<open>s.replace(/r/g, repl)\<close> for a replacement text without \<^verbatim>\<open>$\<close>: the matches are found
  left to right, each search starting where the last match ended, or one code unit later
  after an empty match.
\<close>

function replace_from :: "flags \<Rightarrow> regex \<Rightarrow> jsstring \<Rightarrow> nat \<Rightarrow> nat option \<Rightarrow> jsstring \<Rightarrow> jsstring" where
  "replace_from f r repl p pv s =
     (case run f r (MState p pv s []) of
        m # ms \<Rightarrow>
          if length (rest m) < length s
          then repl @ replace_from f r repl (pos m) (prev m) (rest m)
          else repl @ (case s of [] \<Rightarrow> [] | c # cs \<Rightarrow> c # replace_from f r repl (Suc p) (Some c) cs)
      | [] \<Rightarrow> (case s of [] \<Rightarrow> [] | c # cs \<Rightarrow> c # replace_from f r repl (Suc p) (Some c) cs))"
  by pat_completeness auto
termination
  by (relation "measure (\<lambda>(f, r, repl, p, pv, s). length s)") auto

declare replace_from.simps [simp del]

definition replaceAll :: "flags \<Rightarrow> regex \<Rightarrow> jsstring \<Rightarrow> jsstring \<Rightarrow> jsstring" where
  "replaceAll f r repl s = replace_from f r repl 0 None s"

section \<open>Error records (parser.js)\<close>

text \<open>
  The fields of an error object.  A field that is absent, \<^verbatim>\<open>undefined\<close> or \<^verbatim>\<open>null\<close> is \<open>None\<close>.
  \<open>file'\<close> is the \<^verbatim>\<open>file\<close> field and \<open>func\<close> the \<^verbatim>\<open>function\<close> field of the Python pattern.
\<close>

datatype jsint = Num int | NaN

record ErrorRecord =
  file' :: "jsstring option"
  line :: "jsint option"
  column :: "jsint option"
  severity :: "jsstring option"
  code :: "jsstring option"
  message :: "jsstring option"
  type :: "jsstring option"
  func :: "jsstring option"
  raw :: "jsstring option"
  position :: "nat option"

text \<open>Truthiness of a string-valued field: present and not the empty string.\<close>

definition truthy :: "jsstring option \<Rightarrow> bool" where
  "truthy v = (case v of None \<Rightarrow> False | Some s \<Rightarrow> s \<noteq> [])"

subsection \<open>getErrorSignature\<close>

definition quote :: regex where
  "quote = Sym False [Ch 39, Ch 34, Ch 96]"

definition segment :: regex where
  "segment = Plus (Sym False [Esc_w, Ch 46, Ch 45])"

text \<open>\<^verbatim>\<open>/['"`]?(?:\/[\w.-]+)+(?:\/[\w.-]+)?['"`]?/g\<close>\<close>

definition re_posix_path :: regex where
  "re_posix_path =
     cat [Opt quote, Plus (cat [chr 47, segment]), Opt (cat [chr 47, segment]), Opt quote]"

text \<open>\<^verbatim>\<open>/['"`]?(?:[A-Za-z]:\\[\w.-]+)+(?:\\[\w.-]+)?['"`]?/g\<close>\<close>

definition re_windows_path :: regex where
  "re_windows_path =
     cat [Opt quote, Plus (cat [Sym False [Rng 65 90, Rng 97 122], chr 58, chr 92, segment]),
          Opt (cat [chr 92, segment]), Opt quote]"

text \<open>\<^verbatim>\<open>/\b(?:line|col|column)\s*\d+/gi\<close>\<close>

definition re_line_col :: regex where
  "re_line_col =
     cat [WordB, alts [lit ''line'', lit ''col'', lit ''column''], Star (Sym False [Esc_s]),
          Plus (Sym False [Esc_d])]"

text \<open>\<^verbatim>\<open>/:\d+:\d+/g\<close>\<close>

definition re_position :: regex where
  "re_position = cat [chr 58, Plus (Sym False [Esc_d]), chr 58, Plus (Sym False [Esc_d])]"

text \<open>\<^verbatim>\<open>/['"`]([^'"`]{1,50})['"`]/g\<close>\<close>

definition re_quoted :: regex where
  "re_quoted = cat [quote, Grp 1 (Rep True 1 (Some 50) (Sym True [Ch 39, Ch 34, Ch 96])), quote]"

text \<open>\<^verbatim>\<open>/\b0x[0-9a-f]+\b/gi\<close>\<close>

definition re_hex :: regex where
  "re_hex = cat [WordB, lit ''0x'', Plus (Sym False [Rng 48 57, Rng 97 102]), WordB]"

text \<open>\<^verbatim>\<open>/\b\d{5,}\b/g\<close>\<close>

definition re_long_number :: regex where
  "re_long_number = cat [WordB, Rep True 5 None (Sym False [Esc_d]), WordB]"

definition getErrorSignature :: "'a ErrorRecord_scheme \<Rightarrow> jsstring" where
  "getErrorSignature error =
     (let sig = (if truthy (message error) then the (message error) else []);
          sig = replaceAll no_flags re_posix_path (js ''<path>'') sig;
          sig = replaceAll no_flags re_windows_path (js ''<path>'') sig;
          sig = replaceAll flag_i re_line_col (js ''<loc>'') sig;
          sig = replaceAll no_flags re_position (js '':<loc>'') sig;
          sig = replaceAll no_flags re_quoted ([39] @ js ''<name>'' @ [39]) sig;
          sig = replaceAll flag_i re_hex (js ''<hex>'') sig;
          sig = replaceAll no_flags re_long_number (js ''<id>'') sig;
          sig = (if truthy (code error) then js ''['' @ the (code error) @ js ''] '' @ sig else sig)
      in trim sig)"

definition mk_error :: "jsstring option \<Rightarrow> jsstring option \<Rightarrow> ErrorRecord" where
  "mk_error c m = \<lparr>file' = None, line = None, column = None, severity = None, code = c,
     message = m, type = None, func = None, raw = None, position = None\<rparr>"

subsection \<open>The patterns\<close>

text \<open>
  A call of a method on a capture that did not take part in the match is a \<open>TypeError\<close>;
  \<open>Diverges\<close> is a loop whose state repeats.
\<close>

datatype failure = TypeError | Diverges

definition cap :: "mstate \<Rightarrow> nat \<Rightarrow> jsstring option" where
  "cap m n = map_of (caps m) n"

text \<open>
  \<^verbatim>\<open>parseInt(s, 10)\<close>: white space, a sign, then the decimal digits; the value is exact here,
  where the JavaScript number is the double nearest to it.
\<close>

definition decimal :: "jsstring \<Rightarrow> nat" where
  "decimal k = foldl (\<lambda>n c. 10 * n + (c - 48)) 0 k"

definition parseInt :: "jsstring option \<Rightarrow> jsint" where
  "parseInt v =
     (case v of
        None \<Rightarrow> NaN
      | Some s \<Rightarrow>
          let t = dropWhile isWhiteSpace s;
              negative = (t \<noteq> [] \<and> hd t = 45);
              t = (if t \<noteq> [] \<and> (hd t = 43 \<or> hd t = 45) then tl t else t);
              ds = takeWhile isDigit t
          in if ds = [] then NaN
             else Num (if negative then - int (decimal ds) else int (decimal ds)))"

definition or_default :: "jsstring option \<Rightarrow> string \<Rightarrow> jsstring option" where
  "or_default v d = (if truthy v then v else Some (js d))"

definition replace_first :: "flags \<Rightarrow> regex \<Rightarrow> jsstring \<Rightarrow> jsstring \<Rightarrow> jsstring" where
  "replace_first f r repl s =
     (case search f r 0 None s of
        None \<Rightarrow> s
      | Some (i, m) \<Rightarrow> take i s @ repl @ rest m)"

definition digits :: regex where
  "digits = Plus (Sym False [Esc_d])"

definition spaces :: regex where
  "spaces = Plus (Sym False [Esc_s])"

definition spaces0 :: regex where
  "spaces0 = Star (Sym False [Esc_s])"

definition error_or_warning :: regex where
  "error_or_warning = alts [lit ''error'', lit ''warning'']"

definition no_fields :: ErrorRecord where
  "no_fields = \<lparr>file' = None, line = None, column = None, severity = None, code = None,
     message = None, type = None, func = None, raw = None, position = None\<rparr>"

text \<open>\<^verbatim>\<open>/^(.+?)[:(](\d+)[,:](\d+)\)?[: -]+error\s+(TS\d+):\s*(.+)$/gm\<close>\<close>

definition re_typescript :: regex where
  "re_typescript =
     cat [Bol, Grp 1 (LazyPlus Dot), Sym False [Ch 58, Ch 40], Grp 2 digits,
          Sym False [Ch 44, Ch 58], Grp 3 digits, Opt (chr 41),
          Plus (Sym False [Ch 58, Ch 32, Ch 45]), lit ''error'', spaces,
          Grp 4 (cat [lit ''TS'', digits]), chr 58, spaces0, Grp 5 (Plus Dot), Eol]"

definition extract_typescript :: "mstate \<Rightarrow> failure + ErrorRecord" where
  "extract_typescript m =
     (case cap m 5 of
        None \<Rightarrow> Inl TypeError
      | Some msg \<Rightarrow>
          Inr (no_fields\<lparr>file' := cap m 1, line := Some (parseInt (cap m 2)),
                 column := Some (parseInt (cap m 3)), code := cap m 4,
                 message := Some (trim msg), type := Some (js ''typescript'')\<rparr>))"

text \<open>\<^verbatim>\<open>/^(?:(.+?):)?(\d+):(\d+)\s+(error|warning)\s+(.+?)\s+(\S+)$/gm\<close>\<close>

definition re_eslint :: regex where
  "re_eslint =
     cat [Bol, Opt (cat [Grp 1 (LazyPlus Dot), chr 58]), Grp 2 digits, chr 58, Grp 3 digits,
          spaces, Grp 4 error_or_warning, spaces, Grp 5 (LazyPlus Dot), spaces,
          Grp 6 (Plus (Sym False [Esc_S])), Eol]"

definition extract_eslint :: "mstate \<Rightarrow> failure + ErrorRecord" where
  "extract_eslint m =
     (case cap m 5 of
        None \<Rightarrow> Inl TypeError
      | Some msg \<Rightarrow>
          Inr (no_fields\<lparr>file' := or_default (cap m 1) ''unknown'',
                 line := Some (parseInt (cap m 2)), column := Some (parseInt (cap m 3)),
                 severity := cap m 4, message := Some (trim msg), code := cap m 6,
                 type := Some (js ''eslint'')\<rparr>))"

text \<open>
  \<^verbatim>\<open>/^\s*(?:\<bullet>|\<times>|\<times>|FAIL)\s+(.+?)(?:\s+>\s+(.+))?$/gm\<close>, where the three marks are U+25CF,
  U+2715 and U+2716 and the separator is U+203A; the file is cleaned with
  \<^verbatim>\<open>/^FAIL\s+/\<close>.
\<close>

definition re_jest :: regex where
  "re_jest =
     cat [Bol, spaces0, alts [chr 9679, chr 10005, chr 10006, lit ''FAIL''], spaces,
          Grp 1 (LazyPlus Dot), Opt (cat [spaces, chr 8250, spaces, Grp 2 (Plus Dot)]), Eol]"

definition re_fail_prefix :: regex where
  "re_fail_prefix = cat [Bol, lit ''FAIL'', spaces]"

definition extract_jest :: "mstate \<Rightarrow> failure + ErrorRecord" where
  "extract_jest m =
     (case cap m 1 of
        None \<Rightarrow> Inl TypeError
      | Some f \<Rightarrow>
          Inr (no_fields\<lparr>file' := Some (replace_first no_flags re_fail_prefix [] f),
                 message := (if truthy (cap m 2) then cap m 2 else cap m 1),
                 type := Some (js ''jest'')\<rparr>))"

text \<open>\<^verbatim>\<open>/^(?:\s*File\s+"(.+?)",\s*line\s*(\d+)(?:,\s*in\s+(\S+))?[\s\S]*?)?^\s*(\w+Error|\w+Exception):\s*(.+)$/gm\<close>\<close>

definition re_python :: regex where
  "re_python =
     cat [Bol,
          Opt (cat [spaces0, lit ''File'', spaces, chr 34, Grp 1 (LazyPlus Dot), chr 34, chr 44,
                    spaces0, lit ''line'', spaces0, Grp 2 digits,
                    Opt (cat [chr 44, spaces0, lit ''in'', spaces, Grp 3 (Plus (Sym False [Esc_S]))]),
                    LazyStar (Sym False [Esc_s, Esc_S])]),
          Bol, spaces0,
          Grp 4 (alts [cat [Plus (Sym False [Esc_w]), lit ''Error''],
                       cat [Plus (Sym False [Esc_w]), lit ''Exception'']]),
          chr 58, spaces0, Grp 5 (Plus Dot), Eol]"

definition extract_python :: "mstate \<Rightarrow> failure + ErrorRecord" where
  "extract_python m =
     (case cap m 5 of
        None \<Rightarrow> Inl TypeError
      | Some msg \<Rightarrow>
          Inr (no_fields\<lparr>file' := or_default (cap m 1) ''unknown'',
                 line := (if truthy (cap m 2) then Some (parseInt (cap m 2)) else None),
                 func := cap m 3, code := cap m 4, message := Some (trim msg),
                 type := Some (js ''python'')\<rparr>))"

text \<open>\<^verbatim>\<open>/^(error|warning)\[(E\d+)\]:\s*(.+)\n\s*-->\s*(.+?):(\d+):(\d+)/gm\<close>\<close>

definition re_rust :: regex where
  "re_rust =
     cat [Bol, Grp 1 error_or_warning, chr 91, Grp 2 (cat [chr 69, digits]), chr 93, chr 58,
          spaces0, Grp 3 (Plus Dot), chr 10, spaces0, lit ''-->'', spaces0,
          Grp 4 (LazyPlus Dot), chr 58, Grp 5 digits, chr 58, Grp 6 digits]"

definition extract_rust :: "mstate \<Rightarrow> failure + ErrorRecord" where
  "extract_rust m =
     (case cap m 3 of
        None \<Rightarrow> Inl TypeError
      | Some msg \<Rightarrow>
          Inr (no_fields\<lparr>severity := cap m 1, code := cap m 2, message := Some (trim msg),
                 file' := cap m 4, line := Some (parseInt (cap m 5)),
                 column := Some (parseInt (cap m 6)), type := Some (js ''rust'')\<rparr>))"

text \<open>\<^verbatim>\<open>/^(.+?\.go):(\d+):(\d+):\s*(.+)$/gm\<close>\<close>

definition re_go :: regex where
  "re_go =
     cat [Bol, Grp 1 (cat [LazyPlus Dot, lit ''.go'']), chr 58, Grp 2 digits, chr 58,
          Grp 3 digits, chr 58, spaces0, Grp 4 (Plus Dot), Eol]"

definition extract_go :: "mstate \<Rightarrow> failure + ErrorRecord" where
  "extract_go m =
     (case cap m 4 of
        None \<Rightarrow> Inl TypeError
      | Some msg \<Rightarrow>
          Inr (no_fields\<lparr>file' := cap m 1, line := Some (parseInt (cap m 2)),
                 column := Some (parseInt (cap m 3)), message := Some (trim msg),
                 type := Some (js ''go'')\<rparr>))"

text \<open>\<^verbatim>\<open>/^(.+?\.[ch](?:pp|xx)?):(\d+):(\d+):\s*(error|warning):\s*(.+)$/gm\<close>\<close>

definition re_gcc :: regex where
  "re_gcc =
     cat [Bol,
          Grp 1 (cat [LazyPlus Dot, chr 46, Sym False [Ch 99, Ch 104],
                      Opt (alts [lit ''pp'', lit ''xx''])]),
          chr 58, Grp 2 digits, chr 58, Grp 3 digits, chr 58, spaces0,
          Grp 4 error_or_warning, chr 58, spaces0, Grp 5 (Plus Dot), Eol]"

definition extract_gcc :: "mstate \<Rightarrow> failure + ErrorRecord" where
  "extract_gcc m =
     (case cap m 5 of
        None \<Rightarrow> Inl TypeError
      | Some msg \<Rightarrow>
          Inr (no_fields\<lparr>file' := cap m 1, line := Some (parseInt (cap m 2)),
                 column := Some (parseInt (cap m 3)), severity := cap m 4,
                 message := Some (trim msg), type := Some (js ''gcc'')\<rparr>))"

text \<open>\<^verbatim>\<open>/^(?:\[?(ERROR|Error|error|ERR|FATAL|Fatal|fatal)\]?:?\s*)(.+)$/gm\<close>\<close>

definition re_generic :: regex where
  "re_generic =
     cat [Bol,
          cat [Opt (chr 91),
               Grp 1 (alts [lit ''ERROR'', lit ''Error'', lit ''error'', lit ''ERR'',
                            lit ''FATAL'', lit ''Fatal'', lit ''fatal'']),
               Opt (chr 93), Opt (chr 58), spaces0],
          Grp 2 (Plus Dot), Eol]"

definition extract_generic :: "mstate \<Rightarrow> failure + ErrorRecord" where
  "extract_generic m =
     (case cap m 1 of
        None \<Rightarrow> Inl TypeError
      | Some sev \<Rightarrow>
          (case cap m 2 of
             None \<Rightarrow> Inl TypeError
           | Some msg \<Rightarrow>
               Inr (no_fields\<lparr>severity := Some (toLowerCase sev), message := Some (trim msg),
                      type := Some (js ''generic'')\<rparr>)))"

datatype pattern_entry = Pattern (regex: regex) (extract': "mstate \<Rightarrow> failure + ErrorRecord")

definition PATTERNS :: "(jsstring \<times> pattern_entry) list" where
  "PATTERNS =
     [(js ''typescript'', Pattern re_typescript extract_typescript),
      (js ''eslint'', Pattern re_eslint extract_eslint),
      (js ''jest'', Pattern re_jest extract_jest),
      (js ''python'', Pattern re_python extract_python),
      (js ''rust'', Pattern re_rust extract_rust),
      (js ''go'', Pattern re_go extract_go),
      (js ''gcc'', Pattern re_gcc extract_gcc),
      (js ''generic'', Pattern re_generic extract_generic)]"

subsection \<open>detectType\<close>

text \<open>The probes, in the order of the source; each is a \<^verbatim>\<open>test\<close> of a pattern without \<^verbatim>\<open>g\<close>.\<close>

definition probe_typescript :: "jsstring \<Rightarrow> bool" where
  "probe_typescript input =
     test flag_i (cat [lit ''error'', spaces, lit ''TS'', digits, chr 58]) input"

definition probe_eslint :: "jsstring \<Rightarrow> bool" where
  "probe_eslint input =
     test flag_m (cat [digits, chr 58, digits, spaces, Grp 1 error_or_warning, spaces, Plus Dot,
                       spaces, Plus (Sym False [Esc_S]), Eol]) input"

definition probe_jest :: "jsstring \<Rightarrow> bool" where
  "probe_jest input =
     (test flag_m (cat [Bol, spaces0,
                        alts [chr 9679, chr 10005, chr 10006, cat [lit ''FAIL'', spaces]]]) input \<or>
      test flag_i (cat [lit ''Test Suite'', Opt (chr 115), chr 58, Star Dot, lit ''failed'']) input)"

definition probe_python :: "jsstring \<Rightarrow> bool" where
  "probe_python input =
     (test flag_i (cat [lit ''File'', spaces, chr 34, Plus Dot, chr 34, chr 44, spaces,
                        lit ''line'', spaces, digits]) input \<or>
      test flag_i (alts [cat [Plus (Sym False [Esc_w]), lit ''Error:''], lit ''Traceback'']) input)"

definition probe_rust :: "jsstring \<Rightarrow> bool" where
  "probe_rust input =
     test flag_m (cat [Bol, Grp 1 error_or_warning, chr 91, chr 69, digits, chr 93, chr 58]) input"

definition probe_go :: "jsstring \<Rightarrow> bool" where
  "probe_go input = test no_flags (cat [lit ''.go:'', digits, chr 58, digits, chr 58]) input"

definition probe_gcc :: "jsstring \<Rightarrow> bool" where
  "probe_gcc input =
     test no_flags (cat [chr 46, Sym False [Ch 99, Ch 104], Opt (Grp 1 (alts [lit ''pp'', lit ''xx''])),
                         chr 58, digits, chr 58, digits, chr 58, spaces0,
                         Grp 2 error_or_warning, chr 58]) input"

definition detectType :: "jsstring \<Rightarrow> jsstring" where
  "detectType input =
     (if probe_typescript input then js ''typescript''
      else if probe_eslint input then js ''eslint''
      else if probe_jest input then js ''jest''
      else if probe_python input then js ''python''
      else if probe_rust input then js ''rust''
      else if probe_go input then js ''go''
      else if probe_gcc input then js ''gcc''
      else js ''generic'')"

subsection \<open>parseErrors\<close>

text \<open>
  The own and inherited properties of \<^verbatim>\<open>Object.prototype\<close>, which every object literal
  inherits: a lookup of one of these names in \<^verbatim>\<open>PATTERNS\<close> finds a truthy value that has no
  \<^verbatim>\<open>regex\<close>.
\<close>

definition proto_names :: "jsstring list" where
  "proto_names = map js [''constructor'', ''__defineGetter__'', ''__defineSetter__'',
     ''hasOwnProperty'', ''__lookupGetter__'', ''__lookupSetter__'', ''isPrototypeOf'',
     ''propertyIsEnumerable'', ''toString'', ''valueOf'', ''__proto__'', ''toLocaleString'']"

text \<open>
  \<^verbatim>\<open>PATTERNS[type] || PATTERNS.generic\<close> followed by \<^verbatim>\<open>pattern.regex.lastIndex = 0\<close>, which
  throws when \<^verbatim>\<open>pattern.regex\<close> is undefined.  The result names the pattern that was chosen.
\<close>

definition choose_pattern :: "jsstring \<Rightarrow> failure + (jsstring \<times> pattern_entry)" where
  "choose_pattern t =
     (case map_of PATTERNS t of
        Some p \<Rightarrow> Inr (t, p)
      | None \<Rightarrow>
          if t \<in> set proto_names then Inl TypeError
          else Inr (js ''generic'', the (map_of PATTERNS (js ''generic''))))"

text \<open>
  The \<^verbatim>\<open>while\<close> loop over \<^verbatim>\<open>pattern.regex.exec(input)\<close>: \<open>p\<close> is \<^verbatim>\<open>lastIndex\<close>, \<open>s\<close> the input
  from there on.  A match that leaves \<^verbatim>\<open>lastIndex\<close> where it was is found again by every
  later call, so the loop never ends.  An exception of \<^verbatim>\<open>extract\<close> is caught and the match
  skipped.
\<close>

function scan_from :: "pattern_entry \<Rightarrow> nat \<Rightarrow> nat option \<Rightarrow> jsstring \<Rightarrow> failure + ErrorRecord list" where
  "scan_from pat p pv s =
     (case search flag_m (regex pat) p pv s of
        None \<Rightarrow> Inr []
      | Some (i, m) \<Rightarrow>
          if length (rest m) < length s then
            (case scan_from pat (pos m) (prev m) (rest m) of
               Inl e \<Rightarrow> Inl e
             | Inr errs \<Rightarrow>
                 (case extract' pat m of
                    Inl e \<Rightarrow> Inr errs
                  | Inr error \<Rightarrow>
                      Inr (error\<lparr>raw := Some (take (pos m - i) (drop (i - p) s)),
                                  position := Some i\<rparr> # errs)))
          else Inl Diverges)"
  by pat_completeness auto
termination
  by (relation "measure (\<lambda>(pat, p, pv, s). length s)") auto

declare scan_from.simps [simp del]

definition scan :: "pattern_entry \<Rightarrow> jsstring \<Rightarrow> failure + ErrorRecord list" where
  "scan pat input = scan_from pat 0 None input"

text \<open>
  \<open>parseErrors_trace\<close> is \<^verbatim>\<open>parseErrors\<close> together with the names of the patterns it scanned
  the input with, in order.
\<close>

function parseErrors_trace :: "jsstring \<Rightarrow> jsstring \<Rightarrow> jsstring list \<times> (failure + ErrorRecord list)" where
  "parseErrors_trace input forcedType =
     (let t = (if forcedType = js ''auto'' then detectType input else forcedType) in
      case choose_pattern t of
        Inl e \<Rightarrow> ([], Inl e)
      | Inr (name, pat) \<Rightarrow>
          (case scan pat input of
             Inl e \<Rightarrow> ([name], Inl e)
           | Inr errs \<Rightarrow>
               if errs = [] \<and> t \<noteq> js ''generic''
               then (case parseErrors_trace input (js ''generic'') of
                       (names, res) \<Rightarrow> (name # names, res))
               else ([name], Inr errs)))"
  by pat_completeness auto
termination
  by (relation "measure (\<lambda>(input, forcedType). if forcedType = js ''generic'' then 0 else 1)")
     (auto simp: js_def split: if_splits)

declare parseErrors_trace.simps [simp del]

definition parseErrors :: "jsstring \<Rightarrow> jsstring \<Rightarrow> failure + ErrorRecord list" where
  "parseErrors input forcedType = snd (parseErrors_trace input forcedType)"

section \<open>Grouping (grouper.js)\<close>

text \<open>
  A \<^verbatim>\<open>Set\<close> is the list of its elements in insertion order; a \<^verbatim>\<open>Map\<close> from signatures to
  groups is the list of its groups in insertion order, each carrying its key in
  \<open>signature\<close>.  \<open>code'\<close>, \<open>type'\<close> and \<open>severity'\<close> are the group's \<^verbatim>\<open>code\<close>, \<^verbatim>\<open>type\<close> and
  \<^verbatim>\<open>severity\<close>.
\<close>

definition set_add :: "'a list \<Rightarrow> 'a \<Rightarrow> 'a list" where
  "set_add s x = (if x \<in> set s then s else s @ [x])"

definition new_Set :: "'a list \<Rightarrow> 'a list" where
  "new_Set xs = foldl set_add [] xs"

record Group =
  signature :: jsstring
  count :: nat
  errors :: "ErrorRecord list"
  files :: "jsstring list"
  representative :: "ErrorRecord option"
  code' :: "jsstring option"
  type' :: "jsstring option"
  severity' :: "jsstring option"

definition has :: "Group list \<Rightarrow> jsstring \<Rightarrow> bool" where
  "has groups sig = list_ex (\<lambda>g. signature g = sig) groups"

text \<open>The group stored under a key is changed in place; a key has one entry.\<close>

fun update_group :: "jsstring \<Rightarrow> (Group \<Rightarrow> Group) \<Rightarrow> Group list \<Rightarrow> Group list" where
  "update_group sig f [] = []"
| "update_group sig f (g # gs) =
     (if signature g = sig then f g # gs else g # update_group sig f gs)"

text \<open>One turn of the loop of \<^verbatim>\<open>groupErrors\<close> over the errors.\<close>

definition group_step :: "Group list \<Rightarrow> ErrorRecord \<Rightarrow> Group list" where
  "group_step groups error =
     (let sig = getErrorSignature error in
      if has groups sig then
        update_group sig
          (\<lambda>group. group\<lparr>count := count group + 1,
                          errors := errors group @ [error],
                          files := (if truthy (file' error) \<and> the (file' error) \<notin> set (files group)
                                    then files group @ [the (file' error)] else files group)\<rparr>)
          groups
      else
        groups @ [\<lparr>signature = sig, count = 1, errors = [error],
                    files = new_Set (if truthy (file' error) then [the (file' error)] else []),
                    representative = Some error, code' = code error, type' = type error,
                    severity' = severity error\<rparr>])"

text \<open>
  \<^verbatim>\<open>Array.prototype.sort\<close> is stable (ECMAScript 2019), and for a comparator that orders by a
  key the stable sorted arrangement is unique; this insertion sort computes it.
\<close>

fun insert_sorted :: "('a \<Rightarrow> 'a \<Rightarrow> int) \<Rightarrow> 'a \<Rightarrow> 'a list \<Rightarrow> 'a list" where
  "insert_sorted cmp x [] = [x]"
| "insert_sorted cmp x (y # ys) =
     (if cmp x y \<le> 0 then x # y # ys else y # insert_sorted cmp x ys)"

definition sort_with :: "('a \<Rightarrow> 'a \<Rightarrow> int) \<Rightarrow> 'a list \<Rightarrow> 'a list" where
  "sort_with cmp xs = foldr (insert_sorted cmp) xs []"

text \<open>The comparator \<^verbatim>\<open>(a, b) => b.count - a.count\<close>.\<close>

definition by_count :: "Group \<Rightarrow> Group \<Rightarrow> int" where
  "by_count a b = int (count b) - int (count a)"

text \<open>
  \<open>top_opt\<close> is \<^verbatim>\<open>opts.top\<close>: \<open>None\<close> when the option is not supplied.  The test
  \<^verbatim>\<open>opts.top && opts.top > 0\<close> is truthiness (not zero) and then the comparison.
\<close>

definition groupErrors :: "ErrorRecord list \<Rightarrow> int option \<Rightarrow> Group list" where
  "groupErrors errs top_opt =
     (let groups = foldl group_step [] errs;
          result = sort_with by_count groups
      in case top_opt of
           None \<Rightarrow> result
         | Some n \<Rightarrow> if n \<noteq> 0 \<and> n > 0 then take (nat n) result else result)"

subsection \<open>similarity\<close>

text \<open>
  \<^verbatim>\<open>s.split(/r/)\<close> for a pattern without capturing groups (SplitMatcher at every index
  \<open>q\<close>, \<open>cur\<close> holding the code units since the end \<open>p\<close> of the last separator): a match
  that ends at \<open>p\<close> is skipped, any other match closes the current piece.
\<close>

function split_from :: "flags \<Rightarrow> regex \<Rightarrow> nat \<Rightarrow> nat option \<Rightarrow> jsstring \<Rightarrow> jsstring \<Rightarrow> jsstring list" where
  "split_from f r q pv cur s =
     (case s of
        [] \<Rightarrow> [cur]
      | c # cs \<Rightarrow>
          (case run f r (MState q pv s []) of
             m # ms \<Rightarrow>
               if length (rest m) < length s
               then cur # split_from f r (pos m) (prev m) [] (rest m)
               else if cur = [] then split_from f r (Suc q) (Some c) [c] cs
               else cur # split_from f r (Suc q) (Some c) [c] cs
           | [] \<Rightarrow> split_from f r (Suc q) (Some c) (cur @ [c]) cs))"
  by pat_completeness auto
termination
  by (relation "measure (\<lambda>(f, r, q, pv, cur, s). length s)") auto

declare split_from.simps [simp del]

definition split_regex :: "flags \<Rightarrow> regex \<Rightarrow> jsstring \<Rightarrow> jsstring list" where
  "split_regex f r s =
     (if s = [] then (if run f r (MState 0 None [] []) = [] then [[]] else [])
      else split_from f r 0 None [] s)"

text \<open>\<^verbatim>\<open>new Set(str.toLowerCase().split(/\W+/).filter(Boolean))\<close>\<close>

definition re_nonword :: regex where
  "re_nonword = Plus (Sym False [Esc_W])"

definition tokens :: "jsstring \<Rightarrow> jsstring list" where
  "tokens str = new_Set (filter (\<lambda>t. t \<noteq> []) (split_regex no_flags re_nonword (toLowerCase str)))"

text \<open>
  The result is the exact quotient; the JavaScript number is the double nearest to it
  (0 and 1 are exact, and \<^verbatim>\<open>Math.max(len1, len2) * 0.5\<close> is exact for lengths).
\<close>

definition similarity :: "jsstring \<Rightarrow> jsstring \<Rightarrow> rat" where
  "similarity str1 str2 =
     (if str1 = str2 then 1
      else if str1 = [] \<or> str2 = [] then 0
      else
        let len1 = length str1; len2 = length str2 in
        if \<bar>rat_of_nat len1 - rat_of_nat len2\<bar> > rat_of_nat (max len1 len2) * (1 / 2) then 0
        else
          let tokens1 = tokens str1;
              tokens2 = tokens str2;
              intersection = length (filter (\<lambda>token. token \<in> set tokens2) tokens1);
              union = length tokens1 + length tokens2 - intersection
          in if union = 0 then 0 else rat_of_nat intersection / rat_of_nat union)"

subsection \<open>mergeSimilarGroups\<close>

text \<open>The body of the inner loop, for one \<open>j\<close>: the state is the group being built and \<open>used\<close>.\<close>

definition merge_inner :: "Group list \<Rightarrow> rat \<Rightarrow> Group \<times> nat set \<Rightarrow> nat \<Rightarrow> Group \<times> nat set" where
  "merge_inner groups threshold acc j =
     (case acc of (group', used) \<Rightarrow>
        if j \<in> used then (group', used)
        else if similarity (signature group') (signature (groups ! j)) \<ge> threshold
        then (group'\<lparr>count := count group' + count (groups ! j),
                    errors := errors group' @ errors (groups ! j),
                    files := foldl set_add (files group') (files (groups ! j))\<rparr>,
              insert j used)
        else (group', used))"

text \<open>The body of the outer loop, for one \<open>i\<close>: the state is \<open>merged\<close> and \<open>used\<close>.\<close>

definition merge_outer :: "Group list \<Rightarrow> rat \<Rightarrow> Group list \<times> nat set \<Rightarrow> nat \<Rightarrow> Group list \<times> nat set" where
  "merge_outer groups threshold acc i =
     (case acc of (merged, used) \<Rightarrow>
        if i \<in> used then (merged, used)
        else
          let group' = (groups ! i)\<lparr>files := new_Set (files (groups ! i))\<rparr>;
              (group', used) = foldl (merge_inner groups threshold) (group', used)
                                [i + 1 ..< length groups]
          in (merged @ [group'], insert i used))"

text \<open>
  The threshold is the rational the caller wrote; a similarity is a quotient of two token
  counts, and the comparison of the doubles agrees with the comparison of the rationals
  unless the quotient lies within a rounding error of the threshold without being equal
  to it.
\<close>

definition mergeSimilarGroups :: "Group list \<Rightarrow> rat \<Rightarrow> Group list" where
  "mergeSimilarGroups groups threshold =
     sort_with by_count (fst (foldl (merge_outer groups threshold) ([], {}) [0 ..< length groups]))"

subsection \<open>getStats\<close>

text \<open>
  \<^verbatim>\<open>codeCounts\<close>, \<^verbatim>\<open>byType\<close> and \<^verbatim>\<open>bySeverity\<close> are plain objects used as tables: the own
  properties in creation order.  A read \<^verbatim>\<open>table[key]\<close> of a key that is not an own property
  goes to \<^verbatim>\<open>Object.prototype\<close>; for the names below it finds a function (for \<^verbatim>\<open>__proto__\<close>
  the prototype itself), which is truthy, and adding 1 to it gives a string.  \<open>Junk\<close> is such a
  string: it is truthy, adding 1 to it gives a string again, and compared with a number it is
  NaN.  Writing a string to \<^verbatim>\<open>__proto__\<close> changes nothing.
\<close>

datatype cell = Count nat | Junk

type_synonym table = "(jsstring \<times> cell) list"

text \<open>\<^verbatim>\<open>table[key] = (table[key] || 0) + 1\<close>\<close>

definition bump :: "table \<Rightarrow> jsstring \<Rightarrow> table" where
  "bump t k =
     (case map_of t k of
        Some (Count n) \<Rightarrow> map (\<lambda>(k', v). if k' = k then (k', Count (n + 1)) else (k', v)) t
      | Some Junk \<Rightarrow> t
      | None \<Rightarrow>
          if k = js ''__proto__'' then t
          else if k \<in> set proto_names then t @ [(k, Junk)]
          else t @ [(k, Count 1)])"

text \<open>
  \<^verbatim>\<open>Object.entries\<close> lists the keys that are array indices (canonical decimal numerals up to
  \<open>2^32 - 2\<close>) first, in ascending numeric order, and then the other keys in creation order.
\<close>

definition array_index :: "jsstring \<Rightarrow> nat option" where
  "array_index k =
     (if k \<noteq> [] \<and> list_all isDigit k \<and> (hd k \<noteq> 48 \<or> length k = 1) \<and> decimal k \<le> 4294967294
      then Some (decimal k) else None)"

definition entries :: "table \<Rightarrow> table" where
  "entries t =
     sort_key (\<lambda>(k, v). the (array_index k)) (filter (\<lambda>(k, v). array_index k \<noteq> None) t) @
     filter (\<lambda>(k, v). array_index k = None) t"

record Stats =
  totalErrors :: nat
  uniquePatterns :: nat
  filesAffected :: nat
  byType :: table
  bySeverity :: table
  topCode :: "(jsstring \<times> nat) option"

text \<open>The loop that finds the most common code: the state is \<^verbatim>\<open>maxCount\<close> and \<^verbatim>\<open>stats.topCode\<close>.\<close>

definition top_step :: "nat \<times> (jsstring \<times> nat) option \<Rightarrow> jsstring \<times> cell \<Rightarrow> nat \<times> (jsstring \<times> nat) option" where
  "top_step acc e =
     (case acc of (maxCount, top_code) \<Rightarrow>
        (case e of
           (c, Count n) \<Rightarrow> if n > maxCount then (n, Some (c, n)) else (maxCount, top_code)
         | (c, Junk) \<Rightarrow> (maxCount, top_code)))"

definition getStats :: "Group list \<Rightarrow> ErrorRecord list \<Rightarrow> Stats" where
  "getStats groups allErrors =
     (let filesAffected = foldl (\<lambda>s error. if truthy (file' error) then set_add s (the (file' error)) else s)
                            [] allErrors;
          byType = foldl (\<lambda>t error. bump t (if truthy (type error) then the (type error) else js ''unknown''))
                     [] allErrors;
          bySeverity = foldl (\<lambda>t error. bump t (if truthy (severity error) then the (severity error) else js ''error''))
                         [] allErrors;
          codeCounts = foldl (\<lambda>t error. if truthy (code error) then bump t (the (code error)) else t)
                         [] allErrors;
          (maxCount, top_code) = foldl top_step (0, None) (entries codeCounts)
      in \<lparr>totalErrors = length allErrors, uniquePatterns = length groups,
          filesAffected = length filesAffected, byType = byType, bySeverity = bySeverity,
          topCode = top_code\<rparr>)"

section \<open>Notions of the specification\<close>

text \<open>The index at which an element is first seen in a list.\<close>

fun first_index :: "'a list \<Rightarrow> 'a \<Rightarrow> nat" where
  "first_index [] x = 0"
| "first_index (y # ys) x = (if x = y then 0 else Suc (first_index ys x))"

text \<open>Example data: a group with a signature and a count, and eleven one-letter messages.\<close>

definition mk_group :: "jsstring \<Rightarrow> nat \<Rightarrow> Group" where
  "mk_group sig n = \<lparr>signature = sig, count = n, errors = [], files = [],
     representative = None, code' = None, type' = None, severity' = None\<rparr>"


definition tie_errors :: "ErrorRecord list" where
  "tie_errors = map (\<lambda>m. mk_error None (Some (js m)))
     [''Error A'', ''Error B'', ''Error C'', ''Error C'', ''Error B'', ''Error A'', ''Error D'']"

text \<open>
  The specification of \<open>similarity\<close>: the tokens of a string are the maximal runs of word
  characters of its lower-cased form, and the result for two strings that are different,
  not empty and of comparable length is the Jaccard index of their token sets.
\<close>

fun word_runs :: "jsstring \<Rightarrow> jsstring \<Rightarrow> jsstring list" where
  "word_runs cur [] = (if cur = [] then [] else [cur])"
| "word_runs cur (c # cs) =
     (if isWordChar c then word_runs (cur @ [c]) cs
      else (if cur = [] then [] else [cur]) @ word_runs [] cs)"

definition jaccard :: "'a set \<Rightarrow> 'a set \<Rightarrow> rat" where
  "jaccard A B =
     (if A \<union> B = {} then 0 else rat_of_nat (card (A \<inter> B)) / rat_of_nat (card (A \<union> B)))"

definition similarity_spec :: "jsstring \<Rightarrow> jsstring \<Rightarrow> rat" where
  "similarity_spec a b =
     (if a = b then 1
      else if a = [] \<or> b = [] then 0
      else if 2 * (max (length a) (length b) - min (length a) (length b)) > max (length a) (length b)
      then 0
      else jaccard (set (word_runs [] (toLowerCase a))) (set (word_runs [] (toLowerCase b))))"








text \<open>
  Example records: a quoted run of 51 digits, a message with a TypeScript code, a
  position followed by a line number, and a plain message with a quoted name.
\<close>

definition long_quoted :: ErrorRecord where
  "long_quoted = mk_error None (Some ([39] @ replicate 51 49 @ [39]))"

definition coded :: ErrorRecord where
  "coded = mk_error (Some (js ''TS2304'')) (Some (js ''Cannot find name''))"

definition position_line :: ErrorRecord where
  "position_line = mk_error None (Some (js '':1:2line 5''))"



text \<open>
  The specification of \<^verbatim>\<open>topCode\<close>.  \<open>codes_of\<close> lists the codes of the records that have
  one.  \<open>first_most_frequent order cs\<close> is the first code in \<open>order\<close> that no other code
  exceeds in frequency, with that frequency.  The claim orders the codes as they were
  first seen, \<open>new_Set cs\<close>; \<open>key_order cs\<close> is the order in which an object lists them as
  keys.  \<open>no_proto_codes\<close> excludes the codes that are names of \<^verbatim>\<open>Object.prototype\<close>.
\<close>

definition codes_of :: "ErrorRecord list \<Rightarrow> jsstring list" where
  "codes_of records = map (\<lambda>e. the (code e)) (filter (\<lambda>e. truthy (code e)) records)"

definition key_order :: "jsstring list \<Rightarrow> jsstring list" where
  "key_order cs =
     sort_key (\<lambda>k. the (array_index k)) (filter (\<lambda>k. array_index k \<noteq> None) (new_Set cs)) @
     filter (\<lambda>k. array_index k = None) (new_Set cs)"

definition first_most_frequent :: "jsstring list \<Rightarrow> jsstring list \<Rightarrow> (jsstring \<times> nat) option" where
  "first_most_frequent order cs =
     (case filter (\<lambda>c. \<forall>d \<in> set cs. count_list cs d \<le> count_list cs c) order of
        [] \<Rightarrow> None
      | c # others \<Rightarrow> Some (c, count_list cs c))"

definition no_proto_codes :: "ErrorRecord list \<Rightarrow> bool" where
  "no_proto_codes records = list_all (\<lambda>c. c \<notin> set proto_names) (codes_of records)"

text \<open>Example records: the codes 2 and 1, and four codes of which three occur twice.\<close>

definition two_one :: "ErrorRecord list" where
  "two_one = [mk_error (Some (js ''2'')) None, mk_error (Some (js ''1'')) None]"

definition mixed_codes :: "ErrorRecord list" where
  "mixed_codes = map (\<lambda>c. mk_error (Some (js c)) None)
     [''TS2339'', ''no-var'', ''10'', ''9'', ''no-var'', ''9'', ''10'']"

text \<open>
  A lower bound on the number of code units that a match of a pattern consumes.
\<close>

fun min_len :: "regex \<Rightarrow> nat" where
  "min_len (Sym neg items) = 1"
| "min_len (Seq r s) = min_len r + min_len s"
| "min_len (Alt r s) = min (min_len r) (min_len s)"
| "min_len (Rep g mn mx r) = (if 0 < mn then min_len r else 0)"
| "min_len (Grp n r) = min_len r"
| "min_len r = 0"

text \<open>
  The fixed category set is the set of the keys of \<^verbatim>\<open>PATTERNS\<close>; \<open>extraction c input\<close> is
  the list of records that one scan of \<open>input\<close> with the pattern of the category \<open>c\<close>
  yields.
\<close>

definition categories :: "jsstring list" where
  "categories = map fst PATTERNS"

definition extraction :: "jsstring \<Rightarrow> jsstring \<Rightarrow> ErrorRecord list" where
  "extraction c input =
     (case scan (the (map_of PATTERNS c)) input of Inr errs \<Rightarrow> errs | Inl e \<Rightarrow> [])"

text \<open>Example inputs, and the record that the generic pattern makes of \<open>error_line\<close>.\<close>

definition ts_line :: jsstring where
  "ts_line = js ''a.ts(1,2): error TS1: x''"

definition error_line :: jsstring where
  "error_line = js ''Error: boom''"

definition boom :: ErrorRecord where
  "boom = no_fields\<lparr>severity := Some (js ''error''), message := Some (js ''boom''),
     type := Some (js ''generic''), raw := Some (js ''Error: boom''), position := Some 0\<rparr>"

definition ts_mention :: jsstring where
  "ts_mention = js ''Error: error TS1: x''"

definition mention :: ErrorRecord where
  "mention = no_fields\<lparr>severity := Some (js ''error''), message := Some (js ''error TS1: x''),
     type := Some (js ''generic''), raw := Some (js ''Error: error TS1: x''), position := Some 0\<rparr>"


section \<open>Properties of the grouping\<close>

subsection \<open>Counts\<close>

lemma sum_update_group:
  assumes "\<And>g. count (f g) = Suc (count g)"
  shows "sum_list (map count (update_group s f gs)) =
         sum_list (map count gs) + (if has gs s then 1 else 0)"
  using assms by (induction gs) (auto simp: has_def)

lemma sum_group_step: "sum_list (map count (group_step gs e)) = Suc (sum_list (map count gs))"
  by (simp add: group_step_def Let_def sum_update_group)

lemma sum_foldl_group_step:
  "sum_list (map count (foldl group_step gs es)) = sum_list (map count gs) + length es"
  by (induction es arbitrary: gs) (simp_all add: sum_group_step)

lemma sum_insert_sorted:
  "sum_list (map h (insert_sorted cmp x ys)) = (h x :: nat) + sum_list (map h ys)"
  by (induction ys) auto

lemma sum_sort_with: "sum_list (map h (sort_with cmp xs)) = sum_list (map (h :: 'a \<Rightarrow> nat) xs)"
  unfolding sort_with_def by (induction xs) (simp_all add: sum_insert_sorted)

text \<open>
  C2. Grouping conserves the number of records: when \<^verbatim>\<open>top\<close> is absent or 0, the counts of
  the groups that \<open>groupErrors\<close> returns add up to the number of input records.
\<close>

theorem groupErrors_conserves_count:
  "t = None \<or> t = Some 0 \<Longrightarrow> sum_list (map count (groupErrors records t)) = length records"
  by (auto simp: groupErrors_def Let_def sum_sort_with sum_foldl_group_step)

theorem groupErrors_conserves_count_witness:
  "sum_list (map count (groupErrors
      [mk_error None (Some (js ''Error A'')), mk_error None (Some (js ''Error B'')),
       mk_error None (Some (js ''Error A''))] None)) = 3"
  using groupErrors_conserves_count [of None
      "[mk_error None (Some (js ''Error A'')), mk_error None (Some (js ''Error B'')),
        mk_error None (Some (js ''Error A''))]"]
  by simp

subsection \<open>Merging\<close>

lemma merge_inner_loop:
  assumes "finite used"
    and "foldl (merge_inner groups th) (g, used) idxs = (g', used')"
  shows "finite used' \<and> used \<subseteq> used' \<and> used' \<subseteq> used \<union> set idxs \<and>
         count g' + (\<Sum>k\<in>used. count (groups ! k)) = count g + (\<Sum>k\<in>used'. count (groups ! k))"
  using assms
proof (induction idxs arbitrary: g used)
  case Nil
  then show ?case by simp
next
  case (Cons j idxs)
  obtain g1 used1 where step: "merge_inner groups th (g, used) j = (g1, used1)"
    by (cases "merge_inner groups th (g, used) j")
  have fin1: "finite used1" and sub1: "used \<subseteq> used1" "used1 \<subseteq> insert j used"
    and cnt1: "count g1 + (\<Sum>k\<in>used. count (groups ! k)) = count g + (\<Sum>k\<in>used1. count (groups ! k))"
    using step Cons.prems(1) by (auto simp: merge_inner_def split: if_splits)
  from Cons.prems(2) step have "foldl (merge_inner groups th) (g1, used1) idxs = (g', used')"
    by simp
  from Cons.IH [OF fin1 this] sub1 cnt1 show ?case by auto
qed

lemma merge_outer_loop:
  assumes "finite used" and "used \<subseteq> {0 ..< length groups}" and "set is \<subseteq> {0 ..< length groups}"
    and "sum_list (map count merged) = (\<Sum>k\<in>used. count (groups ! k))"
    and "foldl (merge_outer groups th) (merged, used) is = (merged', used')"
  shows "used \<union> set is \<subseteq> used' \<and> used' \<subseteq> {0 ..< length groups} \<and>
         sum_list (map count merged') = (\<Sum>k\<in>used'. count (groups ! k))"
  using assms
proof (induction "is" arbitrary: merged used)
  case Nil
  then show ?case by simp
next
  case (Cons i "is")
  obtain m1 u1 where step: "merge_outer groups th (merged, used) i = (m1, u1)"
    by (cases "merge_outer groups th (merged, used) i")
  have inv: "finite u1 \<and> insert i used \<subseteq> u1 \<and> u1 \<subseteq> {0 ..< length groups} \<and>
             sum_list (map count m1) = (\<Sum>k\<in>u1. count (groups ! k))"
  proof (cases "i \<in> used")
    case True
    with step Cons.prems show ?thesis by (auto simp: merge_outer_def)
  next
    case False
    obtain g' used1 where inner:
      "foldl (merge_inner groups th) ((groups ! i)\<lparr>files := new_Set (files (groups ! i))\<rparr>, used)
         [i + 1 ..< length groups] = (g', used1)"
      by (cases "foldl (merge_inner groups th) ((groups ! i)\<lparr>files := new_Set (files (groups ! i))\<rparr>, used)
         [i + 1 ..< length groups]")
    from merge_inner_loop [OF Cons.prems(1) inner]
    have fin: "finite used1" and sub: "used \<subseteq> used1" "used1 \<subseteq> used \<union> set [i + 1 ..< length groups]"
      and cnt: "count g' + (\<Sum>k\<in>used. count (groups ! k)) =
                count (groups ! i) + (\<Sum>k\<in>used1. count (groups ! k))"
      by auto
    from sub False have notin: "i \<notin> used1" by auto
    from step False inner have res: "m1 = merged @ [g']" "u1 = insert i used1"
      by (auto simp: merge_outer_def Let_def)
    from Cons.prems(3) have "i < length groups" by simp
    with res fin sub notin cnt Cons.prems(2,4) show ?thesis by auto
  qed
  from Cons.prems(5) step have "foldl (merge_outer groups th) (m1, u1) is = (merged', used')"
    by simp
  from Cons.IH [OF _ _ _ _ this] inv Cons.prems(3) show ?case by auto
qed

text \<open>
  C3. Fuzzy merging conserves the total count: for every list of groups and every
  threshold, the counts of the merged groups add up to the counts of the input groups.
\<close>

theorem mergeSimilarGroups_conserves_count:
  "sum_list (map count (mergeSimilarGroups groups t)) = sum_list (map count groups)"
proof -
  obtain merged used where res:
    "foldl (merge_outer groups t) ([], {}) [0 ..< length groups] = (merged, used)"
    by (cases "foldl (merge_outer groups t) ([], {}) [0 ..< length groups]")
  from merge_outer_loop [OF _ _ _ _ res]
  have "used = {0 ..< length groups}"
    and "sum_list (map count merged) = (\<Sum>k\<in>used. count (groups ! k))"
    by auto
  then have "sum_list (map count merged) = sum_list (map count groups)"
    by (simp add: sum_list_sum_nth)
  with res show ?thesis by (simp add: mergeSimilarGroups_def sum_sort_with)
qed

theorem mergeSimilarGroups_conserves_count_witness:
  "sum_list (map count (mergeSimilarGroups
      [mk_group (js ''Cannot find foo'') 2, mk_group (js ''Cannot find bar'') 3] (1 / 2))) = 5"
  using mergeSimilarGroups_conserves_count
    [of "[mk_group (js ''Cannot find foo'') 2, mk_group (js ''Cannot find bar'') 3]" "1 / 2"]
  by (simp add: mk_group_def)


subsection \<open>Order of the groups\<close>

lemma first_index_less: "a \<in> set xs \<Longrightarrow> first_index xs a < length xs"
  by (induction xs) auto

lemma first_index_append_in: "a \<in> set xs \<Longrightarrow> first_index (xs @ ys) a = first_index xs a"
  by (induction xs) auto

lemma first_index_append_notin:
  "a \<notin> set xs \<Longrightarrow> first_index (xs @ ys) a = length xs + first_index ys a"
  by (induction xs) auto

lemma new_Set_snoc: "new_Set (xs @ [x]) = set_add (new_Set xs) x"
  by (simp add: new_Set_def)

lemma set_new_Set: "set (new_Set xs) = set xs"
  by (induction xs rule: rev_induct) (auto simp: new_Set_snoc set_add_def new_Set_def)

lemma distinct_new_Set: "distinct (new_Set xs)"
  by (induction xs rule: rev_induct) (auto simp: new_Set_snoc set_add_def new_Set_def)

lemma new_Set_first_seen:
  "sorted_wrt (\<lambda>a b. first_index xs a < first_index xs b) (new_Set xs)"
proof (induction xs rule: rev_induct)
  case Nil
  show ?case by (simp add: new_Set_def)
next
  case (snoc x xs)
  have old: "sorted_wrt (\<lambda>a b. first_index (xs @ [x]) a < first_index (xs @ [x]) b) (new_Set xs)"
    by (rule sorted_wrt_mono_rel [OF _ snoc.IH]) (simp add: set_new_Set first_index_append_in)
  show ?case
  proof (cases "x \<in> set xs")
    case True
    then show ?thesis using old by (simp add: new_Set_snoc set_add_def set_new_Set)
  next
    case False
    then have "\<forall>a \<in> set (new_Set xs). first_index (xs @ [x]) a < first_index (xs @ [x]) x"
      by (auto simp: set_new_Set first_index_append_in first_index_append_notin first_index_less)
    then show ?thesis using old False
      by (simp add: new_Set_snoc set_add_def set_new_Set sorted_wrt_append)
  qed
qed

lemma signature_update_group:
  assumes "\<And>g. signature (f g) = signature g"
  shows "map signature (update_group s f gs) = map signature gs"
  using assms by (induction gs) auto

lemma has_iff: "has gs s \<longleftrightarrow> s \<in> set (map signature gs)"
  by (auto simp: has_def list_ex_iff)

lemma signature_group_step:
  "map signature (group_step gs e) = set_add (map signature gs) (getErrorSignature e)"
  by (simp add: group_step_def Let_def signature_update_group has_iff set_add_def)

lemma signature_foldl_group_step:
  "map signature (foldl group_step gs es) =
   foldl set_add (map signature gs) (map getErrorSignature es)"
  by (induction es arbitrary: gs) (simp_all add: signature_group_step)

lemma signatures_of_groups:
  "map signature (foldl group_step [] records) = new_Set (map getErrorSignature records)"
  by (simp add: signature_foldl_group_step new_Set_def)

lemma set_insert_sorted: "set (insert_sorted cmp x ys) = insert x (set ys)"
  by (induction ys) auto

lemma set_sort_with: "set (sort_with cmp xs) = set xs"
  unfolding sort_with_def by (induction xs) (simp_all add: set_insert_sorted)



text \<open>
  Inserting an element that stands before all the others in some order \<open>R\<close> keeps a list
  sorted by descending count with ties in the order \<open>R\<close>.
\<close>

lemma insert_sorted_by_count:
  assumes "sorted_wrt (\<lambda>a b. count b \<le> count a \<and> (count a = count b \<longrightarrow> R a b)) ys"
    and "\<forall>y \<in> set ys. R x y"
  shows "sorted_wrt (\<lambda>a b. count b \<le> count a \<and> (count a = count b \<longrightarrow> R a b))
           (insert_sorted by_count x ys)"
  using assms
proof (induction ys)
  case Nil
  then show ?case by simp
next
  case (Cons y ys)
  show ?case
  proof (cases "by_count x y \<le> 0")
    case True
    then have "count y \<le> count x" by (simp add: by_count_def)
    with Cons.prems show ?thesis using True by (auto simp: by_count_def)
  next
    case False
    then have "count x < count y" by (simp add: by_count_def)
    with Cons show ?thesis using False by (auto simp: set_insert_sorted)
  qed
qed

lemma sort_with_by_count_stable:
  "sorted_wrt R xs \<Longrightarrow>
   sorted_wrt (\<lambda>a b. count b \<le> count a \<and> (count a = count b \<longrightarrow> R a b)) (sort_with by_count xs)"
proof (induction xs)
  case Nil
  show ?case by (simp add: sort_with_def)
next
  case (Cons x xs)
  then have "sorted_wrt (\<lambda>a b. count b \<le> count a \<and> (count a = count b \<longrightarrow> R a b))
      (insert_sorted by_count x (sort_with by_count xs))"
    by (intro insert_sorted_by_count) (auto simp: set_sort_with)
  then show ?case by (simp add: sort_with_def)
qed

lemma groups_first_seen:
  "sorted_wrt (\<lambda>a b. first_index (map getErrorSignature records) (signature a)
                       < first_index (map getErrorSignature records) (signature b))
     (foldl group_step [] records)"
proof -
  from new_Set_first_seen [of "map getErrorSignature records"]
  have "sorted_wrt (\<lambda>a b. first_index (map getErrorSignature records) a
                       < first_index (map getErrorSignature records) b)
     (map signature (foldl group_step [] records))"
    by (simp add: signatures_of_groups)
  then show ?thesis by (simp add: sorted_wrt_map)
qed

text \<open>
  C6. The groups that \<open>groupErrors\<close> returns are sorted by count in descending order, and
  the sort is stable: of two groups with equal counts, the one whose signature was first
  seen earlier in the input comes first.
\<close>

theorem groupErrors_sorted_stable:
  "sorted_wrt
     (\<lambda>a b. count b \<le> count a \<and>
        (count a = count b \<longrightarrow>
           first_index (map getErrorSignature records) (signature a)
             < first_index (map getErrorSignature records) (signature b)))
     (groupErrors records t)"
proof -
  let ?Q = "\<lambda>a b. count b \<le> count a \<and>
        (count a = count b \<longrightarrow>
           first_index (map getErrorSignature records) (signature a)
             < first_index (map getErrorSignature records) (signature b))"
  have sorted: "sorted_wrt ?Q (sort_with by_count (foldl group_step [] records))"
    by (rule sort_with_by_count_stable [OF groups_first_seen])
  then have "sorted_wrt ?Q (take n (sort_with by_count (foldl group_step [] records)))" for n
    by (rule sorted_wrt_take)
  with sorted show ?thesis
    by (simp add: groupErrors_def Let_def split: option.split)
qed

lemma groupErrors_tie_errors:
  "map (\<lambda>g. (signature g, count g)) (groupErrors tie_errors None) =
     [(js ''Error A'', 2), (js ''Error B'', 2), (js ''Error C'', 2), (js ''Error D'', 1)]"
  by code_simp

theorem groupErrors_sorted_stable_witness:
  "sorted_wrt
     (\<lambda>a b. count b \<le> count a \<and>
        (count a = count b \<longrightarrow>
           first_index (map getErrorSignature tie_errors) (signature a)
             < first_index (map getErrorSignature tie_errors) (signature b)))
     (groupErrors tie_errors None) \<and>
   map (\<lambda>g. (signature g, count g)) (groupErrors tie_errors None) =
     [(js ''Error A'', 2), (js ''Error B'', 2), (js ''Error C'', 2), (js ''Error D'', 1)]"
  using groupErrors_sorted_stable [of tie_errors None] by (simp add: groupErrors_tie_errors)

subsection \<open>Number of groups\<close>





section \<open>Properties of the similarity\<close>

lemma in_class_nonword: "in_class no_flags [Esc_W] c = (\<not> isWordChar c)"
  by (simp add: in_class_def variants_def no_flags_def)

lemma run_star_nonword:
  "\<exists>m ms. run no_flags (Rep True 0 None (Sym False [Esc_W])) (MState q pv s cps) = m # ms \<and>
           rest m = dropWhile (\<lambda>c. \<not> isWordChar c) s"
proof (induction s arbitrary: q pv cps)
  case Nil
  show ?case by (subst run.simps) simp
next
  case (Cons c cs)
  show ?case
  proof (cases "isWordChar c")
    case True
    then show ?thesis by (subst run.simps) (simp add: in_class_nonword)
  next
    case False
    from Cons [of "Suc q" "Some c" cps] obtain m ms where
      "run no_flags (Rep True 0 None (Sym False [Esc_W])) (MState (Suc q) (Some c) cs cps) = m # ms"
      "rest m = dropWhile (\<lambda>c. \<not> isWordChar c) cs" by blast
    with False show ?thesis by (subst run.simps) (simp add: in_class_nonword del: run.simps(9))
  qed
qed

lemma run_nonword:
  "run no_flags re_nonword (MState q pv s []) =
     (case s of [] \<Rightarrow> [] | c # cs \<Rightarrow>
        if isWordChar c then []
        else run no_flags (Rep True 0 None (Sym False [Esc_W])) (MState (Suc q) (Some c) cs []))"
  unfolding re_nonword_def Plus_def
  by (subst run.simps) (simp add: in_class_nonword del: run.simps(9) split: list.split)

lemma word_runs_skip: "word_runs [] (dropWhile (\<lambda>c. \<not> isWordChar c) s) = word_runs [] s"
  by (induction s) auto

lemma split_from_word_runs:
  "filter (\<lambda>t. t \<noteq> []) (split_from no_flags re_nonword q pv cur s) = word_runs cur s"
proof (induction "length s" arbitrary: q pv cur s rule: less_induct)
  case less
  show ?case
  proof (cases s)
    case Nil
    then show ?thesis by (subst split_from.simps) simp
  next
    case (Cons c cs)
    show ?thesis
    proof (cases "isWordChar c")
      case True
      with Cons less [of cs "Suc q" "Some c" "cur @ [c]"] show ?thesis
        by (subst split_from.simps) (simp add: run_nonword del: split_from.simps)
    next
      case False
      from run_star_nonword [of "Suc q" "Some c" cs "[]"] obtain m ms where
        m: "run no_flags (Rep True 0 None (Sym False [Esc_W])) (MState (Suc q) (Some c) cs []) = m # ms"
           "rest m = dropWhile (\<lambda>c. \<not> isWordChar c) cs" by blast
      have len: "length (rest m) < length s"
        using m(2) Cons by (simp add: le_imp_less_Suc length_dropWhile_le)
      from less [OF len, of "pos m" "prev m" "[]"]
      have "filter (\<lambda>t. t \<noteq> []) (split_from no_flags re_nonword (pos m) (prev m) [] (rest m)) = word_runs [] cs"
        by (simp add: m(2) word_runs_skip)
      with Cons False m len show ?thesis
        by (subst split_from.simps) (simp add: run_nonword del: split_from.simps)
    qed
  qed
qed

lemma tokens_word_runs: "tokens str = new_Set (word_runs [] (toLowerCase str))"
proof -
  have "filter (\<lambda>t. t \<noteq> []) (split_regex no_flags re_nonword s) = word_runs [] s" for s
    by (cases s) (simp_all add: split_regex_def split_from_word_runs run_nonword del: split_from.simps)
  then show ?thesis by (simp add: tokens_def)
qed


lemma length_filter_mem: "distinct xs \<Longrightarrow> length (filter (\<lambda>t. t \<in> B) xs) = card (set xs \<inter> B)"
proof -
  assume d: "distinct xs"
  have "set (filter (\<lambda>t. t \<in> B) xs) = set xs \<inter> B" by auto
  moreover have "distinct (filter (\<lambda>t. t \<in> B) xs)" using d by simp
  ultimately show ?thesis by (metis distinct_card)
qed

lemma token_counts:
  "(if length (tokens a) + length (tokens b)
        - length (filter (\<lambda>t. t \<in> set (tokens b)) (tokens a)) = 0 then 0
    else rat_of_nat (length (filter (\<lambda>t. t \<in> set (tokens b)) (tokens a))) /
         rat_of_nat (length (tokens a) + length (tokens b)
                   - length (filter (\<lambda>t. t \<in> set (tokens b)) (tokens a)))) =
   jaccard (set (tokens a)) (set (tokens b))"
proof -
  let ?A = "set (tokens a)" and ?B = "set (tokens b)"
  have da: "distinct (tokens a)" and db: "distinct (tokens b)"
    by (simp_all add: tokens_def distinct_new_Set)
  have i: "length (filter (\<lambda>t. t \<in> ?B) (tokens a)) = card (?A \<inter> ?B)"
    by (rule length_filter_mem [OF da])
  have "card ?A + card ?B = card (?A \<union> ?B) + card (?A \<inter> ?B)"
    by (rule card_Un_Int) simp_all
  then have u: "length (tokens a) + length (tokens b) - card (?A \<inter> ?B) = card (?A \<union> ?B)"
    using da db by (simp add: distinct_card)
  have "card (?A \<union> ?B) = 0 \<longleftrightarrow> ?A \<union> ?B = {}" by (simp del: Un_empty)
  then show ?thesis
    unfolding i u jaccard_def by simp
qed

lemma jaccard_range: "finite A \<Longrightarrow> finite B \<Longrightarrow> 0 \<le> jaccard A B \<and> jaccard A B \<le> 1"
proof -
  assume f: "finite A" "finite B"
  then have "card (A \<inter> B) \<le> card (A \<union> B)" by (intro card_mono) auto
  then show ?thesis by (auto simp: jaccard_def divide_le_eq_1)
qed

lemma length_test:
  "(\<bar>rat_of_nat m - rat_of_nat n\<bar> > rat_of_nat (max m n) * (1 / 2)) \<longleftrightarrow>
   (2 * (max m n - min m n) > max m n)"
proof (cases "m \<le> n")
  case True
  then have "\<bar>rat_of_nat m - rat_of_nat n\<bar> = rat_of_nat (n - m)"
    by simp
  moreover have "rat_of_nat n * (1 / 2) < rat_of_nat (n - m) \<longleftrightarrow> rat_of_nat n < rat_of_nat (2 * (n - m))"
    by (simp add: field_simps)
  ultimately show ?thesis using True by (simp only: of_nat_less_iff max_def min_def if_True)
next
  case False
  then have "\<bar>rat_of_nat m - rat_of_nat n\<bar> = rat_of_nat (m - n)"
    by simp
  moreover have "rat_of_nat m * (1 / 2) < rat_of_nat (m - n) \<longleftrightarrow> rat_of_nat m < rat_of_nat (2 * (m - n))"
    by (simp add: field_simps)
  ultimately show ?thesis using False by (simp only: of_nat_less_iff max_def min_def if_False)
qed

text \<open>
  C4. \<open>similarity a b\<close> is a number between 0 and 1: it is 1 when the strings are equal,
  0 when one of them is empty, 0 when the lengths differ by more than half of the longer
  length, and otherwise the Jaccard index of the two sets of lower-cased tokens (the
  maximal runs of word characters), which is 0 when both sets are empty.
\<close>

theorem similarity_is_jaccard:
  "similarity a b = similarity_spec a b \<and> 0 \<le> similarity a b \<and> similarity a b \<le> 1"
proof -
  have eq: "similarity a b = similarity_spec a b"
    unfolding similarity_def similarity_spec_def Let_def length_test token_counts
    by (simp add: tokens_word_runs set_new_Set)
  have "0 \<le> similarity_spec a b \<and> similarity_spec a b \<le> 1"
    using jaccard_range [of "set (word_runs [] (toLowerCase a))" "set (word_runs [] (toLowerCase b))"]
    by (simp add: similarity_spec_def)
  with eq show ?thesis by simp
qed

lemma similarity_spec_example: "similarity_spec (js ''Cannot find Module foo'') (js ''cannot find module bar'') = 3 / 5"
  by code_simp

theorem similarity_is_jaccard_witness:
  "similarity (js ''Cannot find Module foo'') (js ''cannot find module bar'') = 3 / 5"
  using similarity_is_jaccard [of "js ''Cannot find Module foo''" "js ''cannot find module bar''"]
  by (simp add: similarity_spec_example)

section \<open>Properties of the matcher\<close>




lemma run_Rep_cases:
  assumes "st' \<in> set (run f (Rep g mn mx r) st)"
  obtains "mn = 0" "st' = st"
  | m where "mx \<noteq> Some 0"
      "m \<in> set (run f r (MState (pos st) (prev st) (rest st)
                            (filter (\<lambda>(n, v). n \<notin> set (group_numbers r)) (caps st))))"
      "length (rest m) < length (rest st) \<or> 0 < mn \<and> length (rest m) = length (rest st)"
      "st' \<in> set (run f (Rep g (mn - 1) (map_option (\<lambda>m. m - 1) mx) r) m)"
  using assms by (subst (asm) run.simps(9)) (auto simp: Let_def split: if_splits)









section \<open>Properties of the signature\<close>































text \<open>
  The claim as it was stated fails.  A quoted run of 51 digits is too long for the rule
  for quoted names, the rule for long numbers shortens it to \<^verbatim>\<open>'<id>'\<close>, and a second
  application turns that into \<^verbatim>\<open>'<name>'\<close>.  A position in front of \<^verbatim>\<open>line 5\<close> hides the
  word boundary until it has become \<^verbatim>\<open>:<loc>\<close>.  And a code is prepended again by every
  application.
\<close>

lemma long_quoted_signatures:
  "getErrorSignature long_quoted = [39] @ js ''<id>'' @ [39]"
  "getErrorSignature (long_quoted\<lparr>message := Some (getErrorSignature long_quoted)\<rparr>) =
     [39] @ js ''<name>'' @ [39]"
  by code_simp+

lemma position_line_signatures:
  "getErrorSignature position_line = js '':<loc>line 5''"
  "getErrorSignature (position_line\<lparr>message := Some (getErrorSignature position_line)\<rparr>) =
     js '':<loc><loc>''"
  by code_simp+

lemma coded_signatures:
  "getErrorSignature coded = js ''[TS2304] Cannot find name''"
  "getErrorSignature (coded\<lparr>message := Some (getErrorSignature coded)\<rparr>) =
     js ''[TS2304] [TS2304] Cannot find name''"
  "getErrorSignature (coded\<lparr>message := Some (getErrorSignature coded), code := None\<rparr>) =
     js ''[TS2304] Cannot find name''"
  by code_simp+


section \<open>Properties of the statistics\<close>

lemma codeCounts_foldl:
  "foldl (\<lambda>t error. if truthy (code error) then bump t (the (code error)) else t) t records =
   foldl bump t (codes_of records)"
  by (induction records arbitrary: t) (simp_all add: codes_of_def)

lemma count_list_snoc: "count_list (cs @ [x]) c = count_list cs c + (if c = x then 1 else 0)"
  by (induction cs) auto

lemma map_of_table:
  "map_of (map (\<lambda>c. (c, Count (n c))) ks) x = (if x \<in> set ks then Some (Count (n x)) else None)"
  by (induction ks) auto

lemma bump_table:
  "bump (map (\<lambda>c. (c, Count (n c))) ks) x =
     (if x \<in> set ks then map (\<lambda>c. (c, Count (if c = x then n c + 1 else n c))) ks
      else if x = js ''__proto__'' then map (\<lambda>c. (c, Count (n c))) ks
      else if x \<in> set proto_names then map (\<lambda>c. (c, Count (n c))) ks @ [(x, Junk)]
      else map (\<lambda>c. (c, Count (n c))) ks @ [(x, Count 1)])"
  by (simp add: bump_def map_of_table)

lemma table_of_codes:
  assumes "\<forall>c \<in> set cs. c \<notin> set proto_names"
  shows "foldl bump [] cs = map (\<lambda>c. (c, Count (count_list cs c))) (new_Set cs)"
  using assms
proof (induction cs rule: rev_induct)
  case Nil
  show ?case by (simp add: new_Set_def)
next
  case (snoc x cs)
  then have IH: "foldl bump [] cs = map (\<lambda>c. (c, Count (count_list cs c))) (new_Set cs)"
    and x: "x \<notin> set proto_names" by simp_all
  have "js ''__proto__'' \<in> set proto_names" by (simp add: proto_names_def)
  with x have x': "x \<noteq> js ''__proto__''" by auto
  have "foldl bump [] (cs @ [x]) = bump (map (\<lambda>c. (c, Count (count_list cs c))) (new_Set cs)) x"
    by (simp add: IH)
  also have "\<dots> = map (\<lambda>c. (c, Count (count_list (cs @ [x]) c))) (new_Set (cs @ [x]))"
    unfolding bump_table using x x'
    by (auto simp: set_new_Set new_Set_snoc set_add_def count_list_snoc)
  finally show ?case .
qed

lemma insort_key_map:
  "insort_key k (f x) (map f ys) = map f (insort_key (\<lambda>y. k (f y)) x ys)"
  by (induction ys) auto

lemma sort_key_map: "sort_key k (map f xs) = map f (sort_key (\<lambda>y. k (f y)) xs)"
  by (induction xs) (simp_all add: insort_key_map)

lemma entries_table:
  "entries (map (\<lambda>c. (c, Count (n c))) ks) =
   map (\<lambda>c. (c, Count (n c)))
     (sort_key (\<lambda>k. the (array_index k)) (filter (\<lambda>k. array_index k \<noteq> None) ks) @
      filter (\<lambda>k. array_index k = None) ks)"
  by (simp add: entries_def filter_map comp_def sort_key_map)

lemma list_has_max: "ks \<noteq> [] \<Longrightarrow> \<exists>x \<in> set ks. \<forall>d \<in> set ks. (n d :: nat) \<le> n x"
proof -
  assume "ks \<noteq> []"
  then have "Max (n ` set ks) \<in> n ` set ks" by (intro Max_in) auto
  then obtain x where "x \<in> set ks" "n x = Max (n ` set ks)" by auto
  then show ?thesis by (metis List.finite_set finite_imageI image_eqI Max_ge)
qed

lemma top_step_Count:
  "top_step (m, t) (c, Count k) = (if m < k then (k, Some (c, k)) else (m, t))"
  by (simp add: top_step_def)

lemma top_scan:
  "foldl top_step (m, t) (map (\<lambda>c. (c, Count (n c))) ks) =
     (case filter (\<lambda>c. m < n c \<and> (\<forall>d \<in> set ks. n d \<le> n c)) ks of
        [] \<Rightarrow> (m, t)
      | c # others \<Rightarrow> (n c, Some (c, n c)))"
proof (induction ks arbitrary: m t)
  case Nil
  show ?case by simp
next
  case (Cons c ks)
  show ?case
  proof (cases "m < n c")
    case False
    then have "filter (\<lambda>x. m < n x \<and> (\<forall>d \<in> set (c # ks). n d \<le> n x)) (c # ks) =
               filter (\<lambda>x. m < n x \<and> (\<forall>d \<in> set ks. n d \<le> n x)) ks"
      by (auto intro!: filter_cong)
    moreover have "foldl top_step (m, t) (map (\<lambda>c. (c, Count (n c))) (c # ks)) =
        foldl top_step (m, t) (map (\<lambda>c. (c, Count (n c))) ks)"
      using False by (simp add: top_step_Count)
    ultimately show ?thesis by (simp only: Cons.IH)
  next
    case True
    then have step: "foldl top_step (m, t) (map (\<lambda>c. (c, Count (n c))) (c # ks)) =
        foldl top_step (n c, Some (c, n c)) (map (\<lambda>c. (c, Count (n c))) ks)"
      by (simp add: top_step_Count)
    show ?thesis
    proof (cases "\<forall>d \<in> set ks. n d \<le> n c")
      case all: True
      then have "filter (\<lambda>x. n c < n x \<and> (\<forall>d \<in> set ks. n d \<le> n x)) ks = []"
        by (auto simp: filter_empty_conv)
      with True all show ?thesis unfolding step Cons.IH by simp
    next
      case some: False
      then obtain d where d: "d \<in> set ks" "n c < n d" by (auto simp: not_le)
      have "filter (\<lambda>x. m < n x \<and> (\<forall>d \<in> set (c # ks). n d \<le> n x)) ks =
            filter (\<lambda>x. n c < n x \<and> (\<forall>d \<in> set ks. n d \<le> n x)) ks"
      proof (rule filter_cong [OF refl])
        fix x assume "x \<in> set ks"
        show "(m < n x \<and> (\<forall>d \<in> set (c # ks). n d \<le> n x)) = (n c < n x \<and> (\<forall>d \<in> set ks. n d \<le> n x))"
          using d True by (auto; force)
      qed
      moreover from d obtain x where x: "x \<in> set ks" "\<forall>d \<in> set ks. n d \<le> n x"
        using list_has_max [of ks n] by (metis empty_iff list.set(1))
      then have "filter (\<lambda>x. n c < n x \<and> (\<forall>d \<in> set ks. n d \<le> n x)) ks \<noteq> []"
        using d by (auto simp: filter_empty_conv intro!: bexI [of _ x])
      ultimately show ?thesis using True some unfolding step Cons.IH
        by (cases "filter (\<lambda>x. n c < n x \<and> (\<forall>d \<in> set ks. n d \<le> n x)) ks") auto
    qed
  qed
qed


lemma set_key_order: "set (key_order cs) = set cs"
  by (auto simp: key_order_def set_new_Set)

text \<open>
  C8, as the code has it.  When no code is a name of \<^verbatim>\<open>Object.prototype\<close>, \<^verbatim>\<open>topCode\<close> is
  absent if no record has a code, and otherwise it is a code of the highest frequency
  with that frequency; of several such codes it is the first in the order in which the
  frequency table lists its keys: the array indices in ascending numeric order, then the
  other codes in the order they were first seen.
\<close>

theorem topCode_most_frequent:
  assumes "no_proto_codes records"
  shows "topCode (getStats groups records) =
         first_most_frequent (key_order (codes_of records)) (codes_of records)"
proof -
  let ?cs = "codes_of records"
  let ?n = "count_list ?cs"
  from assms have proto: "\<forall>c \<in> set ?cs. c \<notin> set proto_names"
    by (simp add: no_proto_codes_def list_all_iff)
  have pos: "0 < ?n c" if "c \<in> set ?cs" for c
    using that count_list_0_iff [of ?cs c] by (cases "?n c") auto
  have "foldl top_step (0, None) (entries (foldl bump [] ?cs)) =
        (case filter (\<lambda>c. 0 < ?n c \<and> (\<forall>d \<in> set (key_order ?cs). ?n d \<le> ?n c)) (key_order ?cs) of
           [] \<Rightarrow> (0, None)
         | c # others \<Rightarrow> (?n c, Some (c, ?n c)))"
    unfolding table_of_codes [OF proto] entries_table key_order_def [symmetric]
    by (rule top_scan)
  moreover have "filter (\<lambda>c. 0 < ?n c \<and> (\<forall>d \<in> set (key_order ?cs). ?n d \<le> ?n c)) (key_order ?cs) =
        filter (\<lambda>c. \<forall>d \<in> set ?cs. ?n d \<le> ?n c) (key_order ?cs)"
    by (rule filter_cong [OF refl]) (auto simp: set_key_order pos)
  ultimately show ?thesis
    by (simp add: getStats_def Let_def codeCounts_foldl first_most_frequent_def split: list.split)
qed

lemma mixed_codes_no_proto: "no_proto_codes mixed_codes"
  by code_simp

lemma mixed_codes_first:
  "first_most_frequent (key_order (codes_of mixed_codes)) (codes_of mixed_codes) = Some (js ''9'', 2)"
  by code_simp

theorem topCode_most_frequent_witness:
  "no_proto_codes mixed_codes \<and> topCode (getStats [] mixed_codes) = Some (js ''9'', 2)"
  using topCode_most_frequent [OF mixed_codes_no_proto, of "[]"]
  by (simp add: mixed_codes_first mixed_codes_no_proto)

text \<open>
  The claim as it was stated fails: of the codes 2 and 1, each seen once and in this
  order, the earliest is 2, but the table lists the key 1 first and \<^verbatim>\<open>topCode\<close> is 1.
\<close>

lemma two_one_topCode: "topCode (getStats [] two_one) = Some (js ''1'', 1)"
  by code_simp

lemma two_one_first_seen:
  "first_most_frequent (new_Set (codes_of two_one)) (codes_of two_one) = Some (js ''2'', 1)"
  by code_simp

theorem topCode_first_seen_counterexample:
  "topCode (getStats [] two_one) \<noteq>
   first_most_frequent (new_Set (codes_of two_one)) (codes_of two_one)"
  by (simp add: two_one_topCode two_one_first_seen js_def)

section \<open>Properties of the parser\<close>

lemma run_min_len:
  "st' \<in> set (run f r st) \<Longrightarrow> length (rest st') + min_len r \<le> length (rest st)"
proof (induction f r st arbitrary: st' rule: run.induct)
  case (2 f neg items st)
  then show ?case by (cases "rest st") (auto split: if_splits)
next
  case (3 f r s st)
  from "3.prems" obtain m where m: "m \<in> set (run f r st)" "st' \<in> set (run f s m)" by auto
  from "3.IH"(1) [OF m(1)] "3.IH"(2) [OF m] show ?case by simp
next
  case (4 f r s st)
  from "4.prems" have "st' \<in> set (run f r st) \<or> st' \<in> set (run f s st)" by simp
  then show ?case using "4.IH"(1) [of st'] "4.IH"(2) [of st'] by auto
next
  case (9 f g mn mx r st)
  from "9.prems" show ?case
  proof (cases rule: run_Rep_cases)
    case 1
    then show ?thesis by simp
  next
    case (2 m)
    note mx = 2(1) and m = 2(2) and g = 2(3) and st' = 2(4)
    from "9.IH"(1) [OF mx m] have "length (rest m) + min_len r \<le> length (rest st)" by simp
    moreover from "9.IH"(2) [OF mx m g st'] have "length (rest st') \<le> length (rest m)" by simp
    ultimately show ?thesis by simp
  qed
qed (auto split: option.splits list.splits if_splits)

lemma search_result:
  "search f r p pv s = Some (i, m) \<Longrightarrow> 0 < min_len r \<Longrightarrow> length (rest m) < length s"
proof (induction s arbitrary: p pv)
  case Nil
  then obtain ms where "run f r (MState p pv [] []) = m # ms" by (auto split: list.splits)
  then have "m \<in> set (run f r (MState p pv [] []))" by simp
  from run_min_len [OF this] Nil.prems(2) show ?case by simp
next
  case (Cons c cs)
  show ?case
  proof (cases "run f r (MState p pv (c # cs) [])")
    case Nil
    with Cons.prems have "search f r (Suc p) (Some c) cs = Some (i, m)" by simp
    from Cons.IH [OF this Cons.prems(2)] show ?thesis by simp
  next
    case (Cons m' ms)
    with Cons.prems have "m = m'" by simp
    with Cons have "m \<in> set (run f r (MState p pv (c # cs) []))" by simp
    from run_min_len [OF this] Cons.prems(2) show ?thesis by simp
  qed
qed

lemma scan_from_total:
  "0 < min_len (regex pat) \<Longrightarrow> \<exists>errs. scan_from pat p pv s = Inr errs"
proof (induction "length s" arbitrary: p pv s rule: less_induct)
  case less
  show ?case
  proof (cases "search flag_m (regex pat) p pv s")
    case None
    then show ?thesis by (subst scan_from.simps) simp
  next
    case (Some im)
    obtain i m where im: "im = (i, m)" by (cases im)
    from search_result [OF Some [unfolded im] less.prems] have len: "length (rest m) < length s" .
    from less.hyps [OF len less.prems] obtain errs where
      "scan_from pat (pos m) (prev m) (rest m) = Inr errs" by blast
    with Some im len show ?thesis
      by (subst scan_from.simps) (simp split: sum.split)
  qed
qed

lemma patterns_consume:
  "(name, pat) \<in> set PATTERNS \<Longrightarrow> 0 < min_len (regex pat)"
  by (auto simp: PATTERNS_def re_typescript_def re_eslint_def re_jest_def re_python_def
      re_rust_def re_go_def re_gcc_def re_generic_def cat_def chr_def LazyPlus_def Dot_def
      Plus_def digits_def)

lemma category_pattern:
  "c \<in> set categories \<Longrightarrow> (c, the (map_of PATTERNS c)) \<in> set PATTERNS"
  by (auto simp: categories_def PATTERNS_def)

lemma scan_extraction:
  assumes "c \<in> set categories"
  shows "scan (the (map_of PATTERNS c)) input = Inr (extraction c input)"
proof -
  from patterns_consume [OF category_pattern [OF assms]]
  obtain errs where "scan (the (map_of PATTERNS c)) input = Inr errs"
    unfolding scan_def using scan_from_total by blast
  then show ?thesis by (simp add: extraction_def)
qed

lemma choose_category:
  "c \<in> set categories \<Longrightarrow> choose_pattern c = Inr (c, the (map_of PATTERNS c))"
proof -
  assume "c \<in> set categories"
  then have "map_of PATTERNS c \<noteq> None"
    by (simp add: categories_def map_of_eq_None_iff)
  then show ?thesis by (auto simp: choose_pattern_def)
qed

lemma generic_category: "js ''generic'' \<in> set categories"
  by (simp add: categories_def PATTERNS_def)

lemma auto_no_category: "js ''auto'' \<notin> set categories"
  by (simp add: categories_def PATTERNS_def js_def)

lemma parseErrors_trace_generic:
  "parseErrors_trace input (js ''generic'') =
     ([js ''generic''], Inr (extraction (js ''generic'') input))"
proof -
  have "js ''generic'' \<noteq> js ''auto''" by (simp add: js_def)
  then show ?thesis
    by (subst parseErrors_trace.simps)
       (simp add: Let_def choose_category [OF generic_category] scan_extraction [OF generic_category])
qed

text \<open>
  C5. For every input and every category of the fixed set, forced by the caller or found
  by \<open>detectType\<close>: when the category is not \<^verbatim>\<open>generic\<close> and the scan with its pattern
  yields no record, \<open>parseErrors\<close> scans the input once more, with the generic pattern,
  and returns the records of that scan; otherwise it scans once and returns the records
  of that scan, which may be none.
\<close>

theorem parseErrors_fallback:
  assumes "c \<in> set categories"
    and "forced = c \<or> forced = js ''auto'' \<and> detectType input = c"
  shows "parseErrors_trace input forced =
     (if c \<noteq> js ''generic'' \<and> extraction c input = []
      then ([c, js ''generic''], Inr (extraction (js ''generic'') input))
      else ([c], Inr (extraction c input)))"
proof -
  from assms auto_no_category
  have t: "(if forced = js ''auto'' then detectType input else forced) = c" by auto
  show ?thesis
    by (subst parseErrors_trace.simps)
       (simp add: Let_def t choose_category [OF assms(1)] scan_extraction [OF assms(1)]
          parseErrors_trace_generic)
qed


lemma choose_unknown:
  "t \<notin> set categories \<Longrightarrow> t \<notin> set proto_names \<Longrightarrow>
   choose_pattern t = Inr (js ''generic'', the (map_of PATTERNS (js ''generic'')))"
  by (simp add: choose_pattern_def categories_def map_of_eq_None_iff [symmetric])

lemma scan_from_types:
  assumes "\<And>m e. extract' pat m = Inr e \<Longrightarrow> type e = Some T"
    and "0 < min_len (regex pat)"
  shows "scan_from pat p pv s = Inr errs \<Longrightarrow> list_all (\<lambda>r. type r = Some T) errs"
proof (induction "length s" arbitrary: p pv s errs rule: less_induct)
  case less
  show ?case
  proof (cases "search flag_m (regex pat) p pv s")
    case None
    with less.prems show ?thesis by (subst (asm) scan_from.simps) auto
  next
    case (Some im)
    obtain i m where im: "im = (i, m)" by (cases im)
    from search_result [OF Some [unfolded im] assms(2)] have len: "length (rest m) < length s" .
    from scan_from_total [OF assms(2)] obtain tl where
      tl: "scan_from pat (pos m) (prev m) (rest m) = Inr tl" by blast
    from less.hyps [OF len tl] have "list_all (\<lambda>r. type r = Some T) tl" .
    moreover from less.prems Some im len tl
    have "errs = tl \<or> (\<exists>e. extract' pat m = Inr e \<and>
       errs = e\<lparr>raw := Some (take (pos m - i) (drop (i - p) s)), position := Some i\<rparr> # tl)"
      by (subst (asm) scan_from.simps) (auto split: sum.splits)
    ultimately show ?thesis using assms(1) by auto
  qed
qed

lemma generic_types:
  "list_all (\<lambda>r. type r = Some (js ''generic'')) (extraction (js ''generic'') input)"
proof -
  have pat: "the (map_of PATTERNS (js ''generic'')) = Pattern re_generic extract_generic"
    by (simp add: PATTERNS_def js_def)
  have sc: "scan_from (Pattern re_generic extract_generic) 0 None input =
        Inr (extraction (js ''generic'') input)"
    using scan_extraction [OF generic_category] by (simp add: scan_def pat)
  have len: "0 < min_len (regex (Pattern re_generic extract_generic))"
    using patterns_consume [OF category_pattern [OF generic_category]] by (simp add: pat)
  have ty: "type e = Some (js ''generic'')"
    if "extract' (Pattern re_generic extract_generic) m = Inr e" for m e
    using that by (auto simp: extract_generic_def split: option.splits)
  show ?thesis by (rule scan_from_types [OF ty len sc])
qed

text \<open>
  C10, as the code has it.  For a category string that is neither one of the eight
  categories, nor \<^verbatim>\<open>auto\<close>, nor a property name of \<^verbatim>\<open>Object.prototype\<close>, \<open>parseErrors\<close>
  returns what it returns for \<^verbatim>\<open>generic\<close>: the records of a scan with the generic pattern,
  each of type \<^verbatim>\<open>generic\<close>.
\<close>

theorem parseErrors_unknown_category:
  assumes "t \<notin> set categories" and "t \<noteq> js ''auto''" and "t \<notin> set proto_names"
  shows "parseErrors input t = parseErrors input (js ''generic'') \<and>
         parseErrors input t = Inr (extraction (js ''generic'') input) \<and>
         list_all (\<lambda>r. type r = Some (js ''generic'')) (extraction (js ''generic'') input)"
proof -
  have "parseErrors_trace input t =
      (if extraction (js ''generic'') input = []
       then ([js ''generic'', js ''generic''], Inr (extraction (js ''generic'') input))
       else ([js ''generic''], Inr (extraction (js ''generic'') input)))"
    using assms generic_category
    by (subst parseErrors_trace.simps)
       (auto simp: Let_def choose_unknown scan_extraction [OF generic_category]
          parseErrors_trace_generic)
  then show ?thesis
    by (simp add: parseErrors_def parseErrors_trace_generic generic_types)
qed

lemma detectType_category: "detectType input \<in> set categories"
  by (simp add: detectType_def categories_def PATTERNS_def)

lemma proto_no_category: "t \<in> set proto_names \<Longrightarrow> t \<notin> set categories \<and> t \<noteq> js ''auto''"
  by (auto simp: proto_names_def categories_def PATTERNS_def js_def)

text \<open>
  \<open>parseErrors\<close> returns for every input and every category argument that is not a
  property name of \<^verbatim>\<open>Object.prototype\<close>, and \<open>detectType\<close> always returns a category.
\<close>

lemma parseErrors_returns:
  assumes "choose_pattern t = Inr (name, the (map_of PATTERNS name))" and "name \<in> set categories"
    and "t = (if forced = js ''auto'' then detectType input else forced)"
  shows "\<exists>records. parseErrors input forced = Inr records"
  unfolding parseErrors_def
  by (subst parseErrors_trace.simps)
     (simp add: Let_def assms(3) [symmetric] assms(1) scan_extraction [OF assms(2)]
        parseErrors_trace_generic)

lemma parseErrors_total:
  assumes "forced \<notin> set proto_names"
  shows "\<exists>records. parseErrors input forced = Inr records"
proof -
  let ?t = "if forced = js ''auto'' then detectType input else forced"
  have "?t \<notin> set proto_names"
    using assms detectType_category proto_no_category by auto
  show ?thesis
  proof (cases "?t \<in> set categories")
    case True
    from parseErrors_returns [OF choose_category [OF True] True refl] show ?thesis .
  next
    case False
    from parseErrors_returns
      [OF choose_unknown [OF False \<open>?t \<notin> set proto_names\<close>] generic_category refl]
    show ?thesis .
  qed
qed

lemma parseErrors_throws: "t \<in> set proto_names \<Longrightarrow> parseErrors input t = Inl TypeError"
proof -
  assume t: "t \<in> set proto_names"
  with proto_no_category have "map_of PATTERNS t = None" "t \<noteq> js ''auto''"
    by (auto simp: categories_def map_of_eq_None_iff)
  with t show ?thesis
    by (simp add: parseErrors_def parseErrors_trace.simps [of input t] choose_pattern_def)
qed

text \<open>
  C9. The claim says that \<open>parseErrors\<close> returns for every input and every category
  argument.  With the category \<^verbatim>\<open>constructor\<close> the lookup in \<^verbatim>\<open>PATTERNS\<close> finds the
  constructor that every object inherits, and \<open>parseErrors\<close> throws a TypeError on every
  input.
\<close>

theorem parseErrors_prototype_name:
  "parseErrors input (js ''constructor'') = Inl TypeError"
  by (rule parseErrors_throws) (simp add: proto_names_def)

lemma typescript_category: "js ''typescript'' \<in> set categories"
  by (simp add: categories_def PATTERNS_def)

lemma error_line_extractions:
  "extraction (js ''typescript'') error_line = []"
  "extraction (js ''generic'') error_line = [boom]"
  by code_simp+

lemma typescript_not_generic: "js ''typescript'' \<noteq> js ''generic''"
  by (simp add: js_def)

lemma ts_mention_extractions:
  "detectType ts_mention = js ''typescript''"
  "extraction (js ''typescript'') ts_mention = []"
  "extraction (js ''generic'') ts_mention = [mention]"
  by code_simp+

theorem parseErrors_fallback_witness:
  "parseErrors_trace error_line (js ''typescript'') =
     ([js ''typescript'', js ''generic''], Inr [boom]) \<and>
   parseErrors_trace ts_mention (js ''auto'') =
     ([js ''typescript'', js ''generic''], Inr [mention]) \<and>
   parseErrors_trace error_line (js ''generic'') = ([js ''generic''], Inr [boom])"
  using parseErrors_fallback [OF typescript_category, of "js ''typescript''" error_line]
        parseErrors_fallback [OF typescript_category, of "js ''auto''" ts_mention]
        parseErrors_fallback [OF generic_category, of "js ''generic''" error_line]
  by (simp add: error_line_extractions ts_mention_extractions typescript_not_generic)

lemma misspelled_category:
  "js ''typscript'' \<notin> set categories"
  "js ''typscript'' \<noteq> js ''auto''"
  "js ''typscript'' \<notin> set proto_names"
  by (simp_all add: categories_def PATTERNS_def proto_names_def js_def)

lemma boom_type: "type boom = Some (js ''generic'')"
  by (simp add: boom_def)

theorem parseErrors_unknown_category_witness:
  "parseErrors error_line (js ''typscript'') = parseErrors error_line (js ''generic'') \<and>
   parseErrors error_line (js ''typscript'') = Inr [boom] \<and>
   list_all (\<lambda>r. type r = Some (js ''generic'')) [boom]"
proof -
  note unknown = parseErrors_unknown_category [OF misspelled_category, of error_line]
  from unknown have same: "parseErrors error_line (js ''typscript'') = parseErrors error_line (js ''generic'')"
    by (rule conjunct1)
  from unknown have "parseErrors error_line (js ''typscript'') = Inr (extraction (js ''generic'') error_line)"
    by (elim conjE)
  then have res: "parseErrors error_line (js ''typscript'') = Inr [boom]"
    by (simp only: error_line_extractions)
  from same res show ?thesis by (simp add: boom_type)
qed

text \<open>
  The claim as it was stated fails for \<^verbatim>\<open>auto\<close>, which is not one of the categories: a
  TypeScript diagnostic is parsed with the TypeScript pattern, where the generic pattern
  finds nothing in it.
\<close>

theorem parseErrors_auto_counterexample:
  "js ''auto'' \<notin> set categories \<and>
   parseErrors ts_line (js ''auto'') \<noteq> parseErrors ts_line (js ''generic'')"
  by code_simp


section \<open>The tests of the repository\<close>

text \<open>
  The cases of \<^verbatim>\<open>tests/parser.test.js\<close> and \<^verbatim>\<open>tests/grouper.test.js\<close>, evaluated on the
  definitions above.
\<close>

subsection \<open>detectType\<close>

lemma test_detect_typescript:
  "detectType (js ''src/file.ts(10,5): error TS2304: Cannot find name '' @ [39] @ js ''foo'' @ [39] @ js ''.'') = js ''typescript''"
  by code_simp

lemma test_detect_eslint:
  "detectType (js ''10:5  error  Unexpected var  no-var'') = js ''eslint''"
  by code_simp

lemma test_detect_jest:
  "detectType ([9679] @ js '' Test Suite '' @ [8250] @ js '' should do something'') = js ''jest''"
  by code_simp

lemma test_detect_python:
  "detectType (js ''File '' @ [34] @ js ''test.py'' @ [34] @ js '', line 10, in <module>'' @ [10] @ js ''  SyntaxError: invalid syntax'') = js ''python''"
  by code_simp

lemma test_detect_rust:
  "detectType (js ''error[E0425]: cannot find value '' @ [96] @ js ''x'' @ [96] @ js '' in this scope'' @ [10] @ js '' --> src/main.rs:5:13'') = js ''rust''"
  by code_simp

lemma test_detect_go:
  "detectType (js ''main.go:10:5: undefined: x'') = js ''go''"
  by code_simp

lemma test_detect_gcc:
  "detectType (js ''main.c:10:5: error: '' @ [39] @ js ''x'' @ [39] @ js '' undeclared'') = js ''gcc''"
  by code_simp

lemma test_detect_generic:
  "detectType (js ''Something went wrong'') = js ''generic''"
  by code_simp

subsection \<open>parseErrors\<close>

lemma test_parse_typescript_parens:
  "map_sum id (map (\<lambda>e. (file' e, line e, column e, severity e, code e, message e, type e))) (parseErrors (js ''src/utils.ts(10,5): error TS2304: Cannot find name '' @ [39] @ js ''foo'' @ [39] @ js ''.'' @ [10] @ js ''src/utils.ts(20,3): error TS2304: Cannot find name '' @ [39] @ js ''bar'' @ [39] @ js ''.'') (js ''typescript'')) =
     Inr [(Some (js ''src/utils.ts''), Some (Num 10), Some (Num 5), None, Some (js ''TS2304''), Some (js ''Cannot find name '' @ [39] @ js ''foo'' @ [39] @ js ''.''), Some (js ''typescript'')),
          (Some (js ''src/utils.ts''), Some (Num 20), Some (Num 3), None, Some (js ''TS2304''), Some (js ''Cannot find name '' @ [39] @ js ''bar'' @ [39] @ js ''.''), Some (js ''typescript''))]"
  by code_simp

lemma test_parse_typescript_colon:
  "map_sum id (map (\<lambda>e. (file' e, line e, column e, severity e, code e, message e, type e))) (parseErrors (js ''src/index.ts:15:10 - error TS2339: Property '' @ [39] @ js ''x'' @ [39] @ js '' does not exist.'') (js ''typescript'')) =
     Inr [(Some (js ''src/index.ts''), Some (Num 15), Some (Num 10), None, Some (js ''TS2339''), Some (js ''Property '' @ [39] @ js ''x'' @ [39] @ js '' does not exist.''), Some (js ''typescript''))]"
  by code_simp

lemma test_parse_eslint:
  "map_sum id (map (\<lambda>e. (file' e, line e, column e, severity e, code e, message e, type e))) (parseErrors (js ''5:10  error  Unexpected var, use let or const instead  no-var'' @ [10] @ js ''10:1  warning  Missing semicolon  semi'') (js ''eslint'')) =
     Inr [(Some (js ''unknown''), Some (Num 5), Some (Num 10), Some (js ''error''), Some (js ''no-var''), Some (js ''Unexpected var, use let or const instead''), Some (js ''eslint'')),
          (Some (js ''unknown''), Some (Num 10), Some (Num 1), Some (js ''warning''), Some (js ''semi''), Some (js ''Missing semicolon''), Some (js ''eslint''))]"
  by code_simp

lemma test_parse_rust:
  "map_sum id (map (\<lambda>e. (file' e, line e, column e, severity e, code e, message e, type e))) (parseErrors (js ''error[E0425]: cannot find value '' @ [96] @ js ''x'' @ [96] @ js '' in this scope'' @ [10] @ js '' --> src/main.rs:5:13'') (js ''rust'')) =
     Inr [(Some (js ''src/main.rs''), Some (Num 5), Some (Num 13), Some (js ''error''), Some (js ''E0425''), Some (js ''cannot find value '' @ [96] @ js ''x'' @ [96] @ js '' in this scope''), Some (js ''rust''))]"
  by code_simp

lemma test_parse_go:
  "map_sum id (map (\<lambda>e. (file' e, line e, column e, severity e, code e, message e, type e))) (parseErrors (js ''main.go:10:5: undefined: someVar'' @ [10] @ js ''utils.go:20:10: syntax error: unexpected token'') (js ''go'')) =
     Inr [(Some (js ''main.go''), Some (Num 10), Some (Num 5), None, None, Some (js ''undefined: someVar''), Some (js ''go'')),
          (Some (js ''utils.go''), Some (Num 20), Some (Num 10), None, None, Some (js ''syntax error: unexpected token''), Some (js ''go''))]"
  by code_simp

lemma test_parse_generic:
  "map_sum id (map (\<lambda>e. (file' e, line e, column e, severity e, code e, message e, type e))) (parseErrors (js ''[ERROR] Something went wrong'' @ [10] @ js ''Error: Another problem'' @ [10] @ js ''error: lowercase error'') (js ''generic'')) =
     Inr [(None, None, None, Some (js ''error''), None, Some (js ''Something went wrong''), Some (js ''generic'')),
          (None, None, None, Some (js ''error''), None, Some (js ''Another problem''), Some (js ''generic'')),
          (None, None, None, Some (js ''error''), None, Some (js ''lowercase error''), Some (js ''generic''))]"
  by code_simp

lemma test_parse_auto_typescript:
  "map_sum id (map (\<lambda>e. (file' e, line e, column e, severity e, code e, message e, type e))) (parseErrors (js ''src/file.ts(10,5): error TS2304: Cannot find name '' @ [39] @ js ''x'' @ [39] @ js ''.'') (js ''auto'')) =
     Inr [(Some (js ''src/file.ts''), Some (Num 10), Some (Num 5), None, Some (js ''TS2304''), Some (js ''Cannot find name '' @ [39] @ js ''x'' @ [39] @ js ''.''), Some (js ''typescript''))]"
  by code_simp

lemma test_parse_auto_generic:
  "map_sum id (map (\<lambda>e. (file' e, line e, column e, severity e, code e, message e, type e))) (parseErrors (js ''[ERROR] Something completely different'') (js ''auto'')) =
     Inr [(None, None, None, Some (js ''error''), None, Some (js ''Something completely different''), Some (js ''generic''))]"
  by code_simp

lemma test_parse_python:
  "map_sum id (map code) (parseErrors (js ''Traceback (most recent call last):'' @ [10] @ js ''  File '' @ [34] @ js ''test.py'' @ [34] @ js '', line 10, in main'' @ [10] @ js ''NameError: name '' @ [39] @ js ''undefined_var'' @ [39] @ js '' is not defined'') (js ''python'')) =
     Inr [Some (js ''NameError'')]"
  by code_simp

subsection \<open>getErrorSignature\<close>

lemma test_signature_paths:
  "getErrorSignature (mk_error None (Some (js ''Cannot find '' @ [39] @ js ''/path/to/file.ts'' @ [39]))) =
   getErrorSignature (mk_error None (Some (js ''Cannot find '' @ [39] @ js ''/other/path/file.ts'' @ [39])))"
  by code_simp

lemma test_signature_lines:
  "getErrorSignature (mk_error None (Some (js ''Error at line 10''))) =
   getErrorSignature (mk_error None (Some (js ''Error at line 999'')))"
  by code_simp

lemma test_signature_names:
  "getErrorSignature (mk_error None (Some (js ''Cannot find name '' @ [39] @ js ''foo'' @ [39]))) =
   getErrorSignature (mk_error None (Some (js ''Cannot find name '' @ [39] @ js ''bar'' @ [39])))"
  by code_simp

lemma test_signature_code:
  "getErrorSignature (mk_error (Some (js ''TS2304'')) (Some (js ''Cannot find name''))) =
   js ''[TS2304] Cannot find name''"
  by code_simp

subsection \<open>groupErrors\<close>

lemma test_group_identical:
  "map (\<lambda>g. (count g, length (files g))) (groupErrors
     [no_fields\<lparr>message := Some (js ''Cannot find name '' @ [39] @ js ''x'' @ [39]), file' := Some (js ''a.ts''), code := Some (js ''TS2304'')\<rparr>,
      no_fields\<lparr>message := Some (js ''Cannot find name '' @ [39] @ js ''x'' @ [39]), file' := Some (js ''b.ts''), code := Some (js ''TS2304'')\<rparr>,
      no_fields\<lparr>message := Some (js ''Cannot find name '' @ [39] @ js ''x'' @ [39]), file' := Some (js ''c.ts''), code := Some (js ''TS2304'')\<rparr>] None) = [(3, 3)]"
  by code_simp

lemma test_group_identifiers:
  "map count (groupErrors
     [no_fields\<lparr>message := Some (js ''Cannot find name '' @ [39] @ js ''foo'' @ [39]), file' := Some (js ''a.ts''), code := Some (js ''TS2304'')\<rparr>,
      no_fields\<lparr>message := Some (js ''Cannot find name '' @ [39] @ js ''bar'' @ [39]), file' := Some (js ''b.ts''), code := Some (js ''TS2304'')\<rparr>] None) = [2]"
  by code_simp

lemma test_group_separate:
  "length (groupErrors
     [no_fields\<lparr>message := Some (js ''Cannot find name '' @ [39] @ js ''x'' @ [39]), file' := None, code := Some (js ''TS2304'')\<rparr>,
      no_fields\<lparr>message := Some (js ''Property does not exist''), file' := None, code := Some (js ''TS2339'')\<rparr>] None) = 2"
  by code_simp

lemma test_group_sorted:
  "map count (groupErrors
     (map (\<lambda>m. mk_error None (Some (js m)))
        [''Error A'', ''Error B'', ''Error B'', ''Error B'', ''Error A'']) None) = [3, 2]"
  by code_simp

lemma test_group_top:
  "length (groupErrors
     (map (\<lambda>i. mk_error None (Some (js ''Error '' @ [97 + i mod 20]))) [0 ..< 100]) (Some 5)) = 5"
  by code_simp

subsection \<open>similarity and mergeSimilarGroups\<close>

lemma test_similarity_identical:
  "similarity (js ''hello world'') (js ''hello world'') = 1"
  by code_simp

lemma test_similarity_different:
  "similarity (js ''abc'') (js ''xyz'') = 0"
  by code_simp

lemma test_similarity_similar:
  "1 / 2 < similarity (js ''Cannot find module foo'') (js ''Cannot find module bar'')"
  by code_simp

lemma test_similarity_empty:
  "similarity [] [] = 1 \<and> similarity (js ''hello'') [] = 0 \<and> similarity [] (js ''hello'') = 0"
  by code_simp

lemma test_merge_similar:
  "map (\<lambda>g. (count g, length (files g))) (mergeSimilarGroups
     [(mk_group (js ''Cannot find foo'') 2)\<lparr>files := [js ''a.ts'']\<rparr>,
      (mk_group (js ''Cannot find bar'') 3)\<lparr>files := [js ''b.ts'']\<rparr>] (1 / 2)) = [(5, 2)]"
  by code_simp

lemma test_merge_different:
  "length (mergeSimilarGroups
     [mk_group (js ''Type error in function'') 2, mk_group (js ''Syntax error at line'') 3] (9 / 10)) = 2"
  by code_simp

subsection \<open>getStats\<close>

lemma test_stats_total:
  "totalErrors (getStats [] [no_fields, no_fields, no_fields]) = 3"
  by code_simp

lemma test_stats_files:
  "filesAffected (getStats [] (map (\<lambda>v. no_fields\<lparr>file' := Some (js v)\<rparr>) [''a.ts'', ''a.ts'', ''b.ts'', ''c.ts''])) = 3"
  by code_simp

lemma test_stats_types:
  "byType (getStats [] (map (\<lambda>v. no_fields\<lparr>type := Some (js v)\<rparr>) [''typescript'', ''typescript'', ''eslint''])) =
     [(js ''typescript'', Count 2), (js ''eslint'', Count 1)]"
  by code_simp

lemma test_stats_severities:
  "bySeverity (getStats [] (map (\<lambda>v. no_fields\<lparr>severity := Some (js v)\<rparr>) [''error'', ''error'', ''warning''])) =
     [(js ''error'', Count 2), (js ''warning'', Count 1)]"
  by code_simp

lemma test_stats_top_code:
  "topCode (getStats [] (map (\<lambda>v. no_fields\<lparr>code := Some (js v)\<rparr>) [''TS2304'', ''TS2304'', ''TS2304'', ''TS2339''])) =
     Some (js ''TS2304'', 3)"
  by code_simp

end
